theory Spec2Isabelle
  imports Complex_Main "HOL-Library.Option_ord" "HOL-Library.AList"
begin

section \<open>Values, errors and identifiers\<close>

text \<open>
  The values that travel through \<^verbatim>\<open>server.py\<close> as request bodies, responses and
  settings documents are JSON values; a Python \<^verbatim>\<open>dict\<close> is the list of its items in
  insertion order (keys distinct), read with \<open>map_of\<close> and written with \<open>AList.update\<close>,
  which replaces the value of a key in place and appends a new key at the end, as
  \<^verbatim>\<open>d[k] = v\<close> does. Floats are only stored and returned, never computed with, so
  they are carried as reals.
\<close>

datatype json =
    JNull
  | JBool bool
  | JInt int
  | JFloat real
  | JStr string
  | JList "json list"
  | JDict "(string \<times> json) list"

type_synonym dict = "(string \<times> json) list"

text \<open>
  An \<^verbatim>\<open>HTTPException(status_code, detail)\<close> raised by a handler, or any other
  exception leaving it, which the framework answers with status 500.
\<close>

datatype error = HTTPException nat string | ServerError

abbreviation Unauthorized :: error where
  "Unauthorized \<equiv> HTTPException 401 ''Invalid password''"

abbreviation NotFound :: error where
  "NotFound \<equiv> HTTPException 404 ''Listing not found''"

abbreviation BadRequest :: error where
  "BadRequest \<equiv> HTTPException 400 ''No fields to update''"

fun status_code :: "error \<Rightarrow> nat" where
  "status_code (HTTPException c d) = c"
| "status_code ServerError = 500"

text \<open>
  \<^verbatim>\<open>bson.ObjectId\<close>: twelve bytes, written as 24 hexadecimal digits. \<open>is_valid\<close>
  accepts, as documented, exactly the strings of 24 hexadecimal digits, in either case; \<open>ObjectId\<close> reads
  such a string, so two spellings that differ in case only denote the same identifier, and
  \<open>str_oid\<close> prints the lower-case spelling. A JSON value that is not a string is never a
  valid identifier (\<^verbatim>\<open>is_valid\<close> returns False on falsy values and on the TypeError
  of the constructor).
\<close>

datatype oid = Oid string

definition is_hex :: "char \<Rightarrow> bool" where
  "is_hex c \<longleftrightarrow> c \<in> set ''0123456789abcdefABCDEF''"

definition lower_hex :: "char \<Rightarrow> char" where
  "lower_hex c =
     (if c = CHR ''A'' then CHR ''a'' else if c = CHR ''B'' then CHR ''b''
      else if c = CHR ''C'' then CHR ''c'' else if c = CHR ''D'' then CHR ''d''
      else if c = CHR ''E'' then CHR ''e'' else if c = CHR ''F'' then CHR ''f'' else c)"

definition is_valid :: "string \<Rightarrow> bool" where
  "is_valid s \<longleftrightarrow> length s = 24 \<and> list_all is_hex s"

definition ObjectId :: "string \<Rightarrow> oid" where
  "ObjectId s = Oid (map lower_hex s)"

fun str_oid :: "oid \<Rightarrow> string" where
  "str_oid (Oid h) = h"

fun is_valid_json :: "json \<Rightarrow> bool" where
  "is_valid_json (JStr s) = is_valid s"
| "is_valid_json v = False"

fun ObjectId_json :: "json \<Rightarrow> oid" where
  "ObjectId_json (JStr s) = ObjectId s"
| "ObjectId_json v = Oid []"

section \<open>Documents and the store\<close>

text \<open>
  A listing document has the fields that \<^verbatim>\<open>create_listing\<close> and
  \<^verbatim>\<open>seed_initial_data\<close> write. The fields that \<^verbatim>\<open>listing_to_dict\<close> reads with
  \<^verbatim>\<open>.get\<close> and a default may be absent; of these only \<open>sortOrder\<close> is ever left out
  by the program itself (the seeded documents have none). A time stamp is the number of
  microseconds since 1970-01-01T00:00:00.
\<close>

type_synonym datetime = int

record listing =
  id' :: oid
  title :: string
  price :: real
  status :: string
  image' :: "string option"
  excerpt :: string
  fullText :: string
  facebookUrl :: "string option"
  category :: string
  location :: "string option"
  postedDate :: datetime
  createdAt :: "datetime option"
  updatedAt :: datetime
  sortOrder :: "int option"

text \<open>
  The request models, as a handler receives them: the framework has checked the body and
  filled in the defaults of the optional fields; it answers a request that lacks a
  required field or the password parameter itself (status 422), without calling the
  handler. In \<open>ListingUpdate\<close> a field that is absent and a field that is null both
  arrive as None.
\<close>

record ListingCreate =
  c_title :: string
  c_price :: real
  c_status :: string
  c_image :: string
  c_excerpt :: string
  c_fullText :: string
  c_facebookUrl :: string
  c_category :: string
  c_location :: string
  c_postedDate :: "string option"

record ListingUpdate =
  u_title :: "string option"
  u_price :: "real option"
  u_status :: "string option"
  u_image :: "string option"
  u_excerpt :: "string option"
  u_fullText :: "string option"
  u_facebookUrl :: "string option"
  u_category :: "string option"
  u_location :: "string option"

text \<open>
  The database: the collection \<open>listings\<close> in its natural (insertion) order, and the
  document of \<open>site_settings\<close> whose \<^verbatim>\<open>_id\<close> is \<^verbatim>\<open>"site"\<close>, if there is one.
\<close>

record db =
  listings :: "listing list"
  site_settings :: "dict option"

text \<open>
  What a call reads from outside the database: the configured secret, the clock, the
  standard library's rendering and parsing of time stamps, and the identifier the driver
  generates for an inserted document.
\<close>

record env =
  ADMIN_PASSWORD :: string
  utcnow :: datetime
  isoformat :: "datetime \<Rightarrow> string"
  fromisoformat :: "string \<Rightarrow> datetime option"
  inserted_id :: oid

subsection \<open>Store operations\<close>

text \<open>
  The operations of the document store that the handlers call. Identifiers are unique in a
  collection: \<open>insert_one\<close> refuses a duplicate. A sort is stable with respect to the
  natural order, and a document without the sort field comes before every document that
  has it (\<open>None < Some n\<close>). \<open>update_one\<close> and \<open>delete_one\<close> act on the first matching
  document and report how many they matched.
\<close>

definition find_one :: "listing list \<Rightarrow> oid \<Rightarrow> listing option" where
  "find_one ls i = List.find (\<lambda>l. id' l = i) ls"

definition find_one_sort_desc :: "listing list \<Rightarrow> listing option" where
  "find_one_sort_desc ls =
     (case rev (sort_key sortOrder (rev ls)) of [] \<Rightarrow> None | m # _ \<Rightarrow> Some m)"

definition insert_one :: "listing list \<Rightarrow> listing \<Rightarrow> error + listing list" where
  "insert_one ls doc =
     (if id' doc \<in> set (map id' ls) then Inl ServerError else Inr (ls @ [doc]))"

fun update_one :: "listing list \<Rightarrow> oid \<Rightarrow> (listing \<Rightarrow> listing) \<Rightarrow> listing list \<times> nat" where
  "update_one [] i f = ([], 0)"
| "update_one (l # ls) i f =
     (if id' l = i then (f l # ls, 1)
      else (l # fst (update_one ls i f), snd (update_one ls i f)))"

fun delete_one :: "listing list \<Rightarrow> oid \<Rightarrow> listing list \<times> nat" where
  "delete_one [] i = ([], 0)"
| "delete_one (l # ls) i =
     (if id' l = i then (ls, 1)
      else (l # fst (delete_one ls i), snd (delete_one ls i)))"

text \<open>
  \<^verbatim>\<open>update_one({"_id": "site"}, {"$set": data}, upsert=True)\<close>: the fields of \<open>data\<close>
  are written one by one into the settings document, which is created with its identifier
  if there is none. The store refuses a write that would change \<^verbatim>\<open>_id\<close>. Field
  names are taken as they are.
\<close>

definition set_fields :: "dict \<Rightarrow> dict \<Rightarrow> dict" where
  "set_fields data doc = fold (\<lambda>(k, v) d. AList.update k v d) data doc"

definition upsert_site :: "dict option \<Rightarrow> dict \<Rightarrow> error + dict option" where
  "upsert_site stored data =
     (if (case map_of data ''_id'' of None \<Rightarrow> False | Some v \<Rightarrow> v \<noteq> JStr ''site'')
      then Inl ServerError
      else Inr (Some (set_fields data
             (case stored of None \<Rightarrow> [(''_id'', JStr ''site'')] | Some doc \<Rightarrow> doc))))"

section \<open>Helpers\<close>

definition listing_to_dict :: "env \<Rightarrow> listing \<Rightarrow> dict" where
  "listing_to_dict e l =
    [(''id'', JStr (str_oid (id' l))),
     (''title'', JStr (title l)),
     (''price'', JFloat (price l)),
     (''status'', JStr (status l)),
     (''image'', JStr (case image' l of None \<Rightarrow> [] | Some s \<Rightarrow> s)),
     (''excerpt'', JStr (excerpt l)),
     (''fullText'', JStr (fullText l)),
     (''facebookUrl'', JStr (case facebookUrl l of None \<Rightarrow> [] | Some s \<Rightarrow> s)),
     (''category'', JStr (category l)),
     (''location'',
        JStr (case location l of None \<Rightarrow> ''Colorado Springs, CO'' | Some s \<Rightarrow> s)),
     (''postedDate'', JStr (isoformat e (postedDate l))),
     (''createdAt'',
        JStr (isoformat e (case createdAt l of None \<Rightarrow> postedDate l | Some c \<Rightarrow> c))),
     (''sortOrder'', JInt (case sortOrder l of None \<Rightarrow> 999 | Some n \<Rightarrow> n))]"

definition verify_admin :: "env \<Rightarrow> string \<Rightarrow> error + unit" where
  "verify_admin e password =
     (if password \<noteq> ADMIN_PASSWORD e then Inl Unauthorized else Inr ())"

definition ok :: json where
  "ok = JDict [(''ok'', JBool True)]"

section \<open>Listing routes\<close>

text \<open>
  \<^verbatim>\<open>get_listings\<close>: the query filters on the category only when one is given that is
  neither empty nor \<^verbatim>\<open>"all"\<close> (the parameter \<open>cat\<close> is the query parameter
  \<^verbatim>\<open>category\<close>); \<open>find_listings\<close> is the list the cursor delivers
  (the local variable \<^verbatim>\<open>listings\<close>), \<open>get_listings\<close> the response made of it.
\<close>

definition listings_query :: "string option \<Rightarrow> string option" where
  "listings_query cat =
     (case cat of None \<Rightarrow> None
      | Some c \<Rightarrow> if c \<noteq> [] \<and> c \<noteq> ''all'' then Some c else None)"

definition find_sorted :: "db \<Rightarrow> string option \<Rightarrow> listing list" where
  "find_sorted d query =
     sort_key sortOrder
       (case query of None \<Rightarrow> listings d
        | Some c \<Rightarrow> filter (\<lambda>l. category l = c) (listings d))"

definition find_listings :: "db \<Rightarrow> string option \<Rightarrow> listing list" where
  "find_listings d cat = take 200 (find_sorted d (listings_query cat))"


definition get_listing :: "env \<Rightarrow> db \<Rightarrow> string \<Rightarrow> (error + json) \<times> db" where
  "get_listing e d listing_id =
     (if \<not> is_valid listing_id then (Inl NotFound, d)
      else case find_one (listings d) (ObjectId listing_id) of
             None \<Rightarrow> (Inl NotFound, d)
           | Some l \<Rightarrow> (Inr (JDict (listing_to_dict e l)), d))"

section \<open>Settings routes\<close>

definition DEFAULT_SETTINGS :: dict where
  \<open>DEFAULT_SETTINGS = [
    (''siteTitle'', JStr ''unhinged listings''),
    (''subtitle'', JStr ''colorado springs > for sale / wanted > general for sale''),
    (''tagline'', JStr ''where mundane commerce meets existential dread''),
    (''description'', JStr ''real items for sale, written through the lens of late-stage capitalism and fourth-wall-breaking nihilism''),
    (''categories'', JList [
        JDict [(''id'', JStr ''all''), (''name'', JStr ''All Listings'')],
        JDict [(''id'', JStr ''household''), (''name'', JStr ''Household Items'')],
        JDict [(''id'', JStr ''furniture''), (''name'', JStr ''Furniture'')],
        JDict [(''id'', JStr ''tools''), (''name'', JStr ''Tools & Equipment'')],
        JDict [(''id'', JStr ''vintage''), (''name'', JStr ''Vintage & Collectibles'')]]),
    (''safetyTips'', JStr ''meet in public places\<newline>don't wire money\<newline>avoid offers that seem too good\<newline>beware of existential dread''),
    (''footerText'', JStr ''unhinged listings | all rights reserved to question reality through commerce''),
    (''footerLinks'', JStr ''help | safety | privacy | feedback | craigslist blog | best of craigslist | existential crisis support''),
    (''aboutTitle'', JStr ''About Unhinged Listings''),
    (''aboutIntro'', JStr ''This is an ongoing performance art piece disguised as classified ads. Each listing starts as a real item for sale from my actual home, but transforms into absurdist literature that questions the nature of consumer culture, late-stage capitalism, and the commodification of our lives.''),
    (''aboutProcess'', JStr ''Find real item to sell from my home\<newline>Start writing "normal" classified ad\<newline>Let nihilistic stream-of-consciousness take over\<newline>Break fourth wall, question existence\<newline>Post to Facebook Marketplace as functional ad\<newline>Archive here as art piece''),
    (''aboutQuote'', JStr ''Full disclosure, this chair does not make you weightless. The laws of universe still apply. I called the manufacturer to complain and they told me that I should shove the chair somewhere inappropriate. I told them I'd already done that but I still wasn't weightless.''),
    (''aboutQuoteSource'', JStr ''From the Zero Gravity Chair listing''),
    (''aboutPhilosophy'', JStr ''What if classified ads were honest? What if they revealed not just the condition of our possessions, but the condition of our souls? Through intentional existential spirals and absurdist descriptions, these "ads" become literature that questions why we buy, why we sell, and why we pretend any of this makes sense.''),
    (''aboutAuthenticity'', JStr ''All items are real and actually for sale. The Facebook Marketplace links lead to the live ads (when active). Some sell, some don't, but all serve as both functional commerce and performance art. The unhinged descriptions are posted exactly as written to actual buyers on Facebook Marketplace.''),
    (''aboutWarning'', JStr ''Reading these listings may cause existential questioning about the nature of capitalism, the meaning of ownership, and why we accumulate objects only to eventually sell them to strangers on the internet.''),
    (''contactText'', JStr ''Serious inquiries only. Cash preferred. Must be able to handle existential conversations about the nature of commerce.'')]\<close>

definition backfill :: "dict \<Rightarrow> dict \<Rightarrow> dict" where
  "backfill defaults settings =
     fold (\<lambda>(key, val) s. if map_of s key = None then AList.update key val s else s)
       defaults settings"

definition get_settings :: "db \<Rightarrow> (error + json) \<times> db" where
  "get_settings d =
     (case site_settings d of
        Some doc \<Rightarrow> (Inr (JDict (backfill DEFAULT_SETTINGS (AList.delete ''_id'' doc))), d)
      | None \<Rightarrow> (Inr (JDict DEFAULT_SETTINGS), d))"

text \<open>
  A request body is \<open>None\<close> when it is not JSON text (\<^verbatim>\<open>request.json()\<close> raises).
  Assigning \<^verbatim>\<open>data["updatedAt"]\<close> works on a dict only.
\<close>

definition update_settings :: "env \<Rightarrow> db \<Rightarrow> json option \<Rightarrow> string \<Rightarrow> (error + json) \<times> db" where
  "update_settings e d request password =
     (case verify_admin e password of
        Inl err \<Rightarrow> (Inl err, d)
      | Inr _ \<Rightarrow>
         (case request of
            Some (JDict data) \<Rightarrow>
              (case upsert_site (site_settings d)
                      (AList.update ''updatedAt'' (JStr (isoformat e (utcnow e))) data) of
                 Inl err \<Rightarrow> (Inl err, d)
               | Inr s \<Rightarrow> (Inr ok, d\<lparr>site_settings := s\<rparr>))
          | _ \<Rightarrow> (Inl ServerError, d)))"

section \<open>Admin routes\<close>

definition admin_verify :: "env \<Rightarrow> string \<Rightarrow> error + json" where
  "admin_verify e password =
     (case verify_admin e password of Inl err \<Rightarrow> Inl err | Inr _ \<Rightarrow> Inr ok)"

definition parse_postedDate :: "env \<Rightarrow> string option \<Rightarrow> datetime" where
  "parse_postedDate e p =
     (case p of
        None \<Rightarrow> utcnow e
      | Some s \<Rightarrow>
          if s = [] then utcnow e
          else (case fromisoformat e s of None \<Rightarrow> utcnow e | Some t \<Rightarrow> t))"

definition next_sortOrder :: "listing list \<Rightarrow> int" where
  "next_sortOrder ls =
     (case find_one_sort_desc ls of
        None \<Rightarrow> 0
      | Some max_order \<Rightarrow> (case sortOrder max_order of None \<Rightarrow> 0 | Some n \<Rightarrow> n) + 1)"

definition new_doc :: "env \<Rightarrow> db \<Rightarrow> ListingCreate \<Rightarrow> listing" where
  "new_doc e d listing =
     \<lparr>id' = inserted_id e,
      title = c_title listing,
      price = c_price listing,
      status = c_status listing,
      image' = Some (c_image listing),
      excerpt = c_excerpt listing,
      fullText = c_fullText listing,
      facebookUrl = Some (c_facebookUrl listing),
      category = c_category listing,
      location = Some (c_location listing),
      postedDate = parse_postedDate e (c_postedDate listing),
      createdAt = Some (utcnow e),
      updatedAt = utcnow e,
      sortOrder = Some (next_sortOrder (listings d))\<rparr>"

definition create_listing :: "env \<Rightarrow> db \<Rightarrow> ListingCreate \<Rightarrow> string \<Rightarrow> (error + json) \<times> db" where
  "create_listing e d listing password =
     (case verify_admin e password of
        Inl err \<Rightarrow> (Inl err, d)
      | Inr _ \<Rightarrow>
         (case insert_one (listings d) (new_doc e d listing) of
            Inl err \<Rightarrow> (Inl err, d)
          | Inr ls \<Rightarrow>
             (case find_one ls (inserted_id e) of
                None \<Rightarrow> (Inl ServerError, d\<lparr>listings := ls\<rparr>)
              | Some created \<Rightarrow>
                 (Inr (JDict (listing_to_dict e created)), d\<lparr>listings := ls\<rparr>))))"

text \<open>
  \<^verbatim>\<open>update_listing\<close>: \<open>no_update_data\<close> says that the dict of the fields that are
  not None is empty; \<open>set_update_data\<close> is the \<^verbatim>\<open>$set\<close> of that dict, with
  \<^verbatim>\<open>updatedAt\<close> added, on one document.
\<close>

definition no_update_data :: "ListingUpdate \<Rightarrow> bool" where
  "no_update_data u \<longleftrightarrow>
     u_title u = None \<and> u_price u = None \<and> u_status u = None \<and> u_image u = None \<and>
     u_excerpt u = None \<and> u_fullText u = None \<and> u_facebookUrl u = None \<and>
     u_category u = None \<and> u_location u = None"

definition set_update_data :: "ListingUpdate \<Rightarrow> datetime \<Rightarrow> listing \<Rightarrow> listing" where
  "set_update_data u now l =
     l\<lparr>title := (case u_title u of None \<Rightarrow> title l | Some v \<Rightarrow> v),
       price := (case u_price u of None \<Rightarrow> price l | Some v \<Rightarrow> v),
       status := (case u_status u of None \<Rightarrow> status l | Some v \<Rightarrow> v),
       image' := (case u_image u of None \<Rightarrow> image' l | Some v \<Rightarrow> Some v),
       excerpt := (case u_excerpt u of None \<Rightarrow> excerpt l | Some v \<Rightarrow> v),
       fullText := (case u_fullText u of None \<Rightarrow> fullText l | Some v \<Rightarrow> v),
       facebookUrl := (case u_facebookUrl u of None \<Rightarrow> facebookUrl l | Some v \<Rightarrow> Some v),
       category := (case u_category u of None \<Rightarrow> category l | Some v \<Rightarrow> v),
       location := (case u_location u of None \<Rightarrow> location l | Some v \<Rightarrow> Some v),
       updatedAt := now\<rparr>"

definition update_listing ::
  "env \<Rightarrow> db \<Rightarrow> string \<Rightarrow> ListingUpdate \<Rightarrow> string \<Rightarrow> (error + json) \<times> db" where
  "update_listing e d listing_id updates password =
     (case verify_admin e password of
        Inl err \<Rightarrow> (Inl err, d)
      | Inr _ \<Rightarrow>
         if \<not> is_valid listing_id then (Inl NotFound, d)
         else if no_update_data updates then (Inl BadRequest, d)
         else
           (let result = update_one (listings d) (ObjectId listing_id)
                           (set_update_data updates (utcnow e))
            in if snd result = 0 then (Inl NotFound, d\<lparr>listings := fst result\<rparr>)
               else (case find_one (fst result) (ObjectId listing_id) of
                       None \<Rightarrow> (Inl ServerError, d\<lparr>listings := fst result\<rparr>)
                     | Some updated \<Rightarrow>
                        (Inr (JDict (listing_to_dict e updated)),
                         d\<lparr>listings := fst result\<rparr>))))"

definition delete_listing :: "env \<Rightarrow> db \<Rightarrow> string \<Rightarrow> string \<Rightarrow> (error + json) \<times> db" where
  "delete_listing e d listing_id password =
     (case verify_admin e password of
        Inl err \<Rightarrow> (Inl err, d)
      | Inr _ \<Rightarrow>
         if \<not> is_valid listing_id then (Inl NotFound, d)
         else
           (let result = delete_one (listings d) (ObjectId listing_id)
            in if snd result = 0 then (Inl NotFound, d\<lparr>listings := fst result\<rparr>)
               else (Inr (JDict [(''ok'', JBool True), (''deleted'', JStr listing_id)]),
                     d\<lparr>listings := fst result\<rparr>)))"

text \<open>
  \<^verbatim>\<open>reorder_listings\<close>: \<open>py_iter\<close> is what \<^verbatim>\<open>enumerate\<close> walks over (a list, the
  characters of a string or the keys of a dict; anything else is not iterable), and
  \<open>reorder_loop\<close> is the loop, \<open>i\<close> being the index of the next entry.
\<close>

fun py_iter :: "json \<Rightarrow> json list option" where
  "py_iter (JList xs) = Some xs"
| "py_iter (JStr s) = Some (map (\<lambda>c. JStr [c]) s)"
| "py_iter (JDict kvs) = Some (map (\<lambda>kv. JStr (fst kv)) kvs)"
| "py_iter v = None"

fun reorder_loop :: "listing list \<Rightarrow> nat \<Rightarrow> json list \<Rightarrow> listing list" where
  "reorder_loop ls i [] = ls"
| "reorder_loop ls i (lid # order) =
     reorder_loop
       (if is_valid_json lid
        then fst (update_one ls (ObjectId_json lid) (\<lambda>l. l\<lparr>sortOrder := Some (int i)\<rparr>))
        else ls)
       (Suc i) order"

definition reorder_listings :: "env \<Rightarrow> db \<Rightarrow> json option \<Rightarrow> string \<Rightarrow> (error + json) \<times> db" where
  "reorder_listings e d request password =
     (case verify_admin e password of
        Inl err \<Rightarrow> (Inl err, d)
      | Inr _ \<Rightarrow>
         (case request of
            Some (JDict data) \<Rightarrow>
              (case py_iter (case map_of data ''order'' of None \<Rightarrow> JList [] | Some v \<Rightarrow> v) of
                 None \<Rightarrow> (Inl ServerError, d)
               | Some order \<Rightarrow> (Inr ok, d\<lparr>listings := reorder_loop (listings d) 0 order\<rparr>))
          | _ \<Rightarrow> (Inl ServerError, d)))"

section \<open>Example data\<close>

text \<open>
  A configuration and some requests on which the theorems below are run. The rendering and
  the parsing of time stamps are given on the time stamps that occur: noon and midnight of
  2025-11-04 and midnight of 2024-01-12.
\<close>

definition noon :: datetime where
  "noon = 1762257600000000"

definition env0 :: env where
  "env0 =
     \<lparr>ADMIN_PASSWORD = ''changeme'',
      utcnow = noon,
      isoformat = (\<lambda>t. if t = noon then ''2025-11-04T12:00:00''
                        else if t = 1762214400000000 then ''2025-11-04T00:00:00''
                        else if t = 1705017600000000 then ''2024-01-12T00:00:00'' else []),
      fromisoformat = (\<lambda>s. if s = ''2024-01-12'' then Some 1705017600000000 else None),
      inserted_id = Oid ''65a0c0ffee0000000000000a''\<rparr>"

definition empty_db :: db where
  "empty_db = \<lparr>listings = [], site_settings = None\<rparr>"

definition lamp :: ListingCreate where
  "lamp =
     \<lparr>c_title = ''Lamp'', c_price = 10, c_status = ''In Stock'', c_image = [],
      c_excerpt = ''e'', c_fullText = ''f'', c_facebookUrl = [],
      c_category = ''household'', c_location = ''Colorado Springs, CO'',
      c_postedDate = None\<rparr>"

definition no_updates :: ListingUpdate where
  "no_updates =
     \<lparr>u_title = None, u_price = None, u_status = None, u_image = None, u_excerpt = None,
      u_fullText = None, u_facebookUrl = None, u_category = None, u_location = None\<rparr>"

text \<open>
  The second of the documents that \<^verbatim>\<open>seed_initial_data\<close> inserts, as it is stored
  after a start at midnight of 2025-11-04: it has no \<open>sortOrder\<close>.
\<close>

definition chair :: listing where
  \<open>chair =
     \<lparr>id' = Oid ''65a0c0ffee00000000000002'',
      title = ''Zero Gravity Lounge Chair'',
      price = 20,
      status = ''Sold'',
      image' = Some ''https://customer-assets.emergentagent.com/job_chaos-pages/artifacts/6xmy0w1y_gravitychair.jpg'',
      excerpt = ''Full disclosure, this chair does not make you weightless. The laws of universe still apply. I called the manufacturer to complain...'',
      fullText = ''Listed over a week ago in Manitou Springs\<newline>Condition: Used - Good\<newline>\<newline>Zero gravity lounge chair available. In good shape. Full disclosure, this chair does not make you weightless. The laws of universe still apply. I called the manufacturer to complain and they told me that I should shove the chair somewhere inappropriate. I told them I'd already done that but I still wasn't weightless.\<newline>\<newline>This is a reasonably comfortable chair for outdoor relaxation, assuming you can achieve relaxation in this current timeline. The fabric is intact, the frame is solid, and it reclines to a position that makes you feel like you're surrendering to the void, which honestly might be the most honest marketing I can offer.\<newline>\<newline>Pick up only. Cash preferred. Serious inquiries only - I don't have the emotional bandwidth for tire kickers right now.'',
      facebookUrl = Some ''https://facebook.com/marketplace/sample2'',
      category = ''furniture'',
      location = Some ''Manitou Springs, CO'',
      postedDate = 1705017600000000,
      createdAt = Some 1762214400000000,
      updatedAt = 1762214400000000,
      sortOrder = None\<rparr>\<close>

definition chair_db :: db where
  "chair_db = \<lparr>listings = [chair], site_settings = None\<rparr>"

definition retitle :: ListingUpdate where
  "retitle = no_updates\<lparr>u_title := Some ''Chair''\<rparr>"

text \<open>
  The position that \<open>reorder_loop\<close> leaves on the listing with identifier \<open>x\<close>: the index of
  the last entry of the sequence that is a well-formed spelling of \<open>x\<close>, counted from \<open>i\<close>
  for the first entry, if there is such an entry.
\<close>

fun reorder_target :: "nat \<Rightarrow> json list \<Rightarrow> oid \<Rightarrow> nat option" where
  "reorder_target i [] x = None"
| "reorder_target i (lid # order) x =
     (case reorder_target (Suc i) order x of
        Some j \<Rightarrow> Some j
      | None \<Rightarrow> if is_valid_json lid \<and> ObjectId_json lid = x then Some i else None)"

text \<open>
  Numbered identifiers and listings: \<open>numbered k\<close> is the document that
  \<^verbatim>\<open>create_listing\<close> stores for the request \<open>lamp\<close> when it is given the identifier
  \<open>hex_id k\<close> and \<open>k\<close> is the next \<open>sortOrder\<close>.
\<close>

definition hexdigit :: "nat \<Rightarrow> char" where
  "hexdigit n = ''0123456789abcdef'' ! n"

definition hex_id :: "nat \<Rightarrow> string" where
  "hex_id k = ''65a0c0ffee000000000000'' @ [hexdigit (k div 16), hexdigit (k mod 16)]"

definition numbered :: "nat \<Rightarrow> listing" where
  "numbered k =
     \<lparr>id' = Oid (hex_id k), title = ''Lamp'', price = 10, status = ''In Stock'',
      image' = Some [], excerpt = ''e'', fullText = ''f'', facebookUrl = Some [],
      category = ''household'', location = Some ''Colorado Springs, CO'',
      postedDate = noon, createdAt = Some noon, updatedAt = noon,
      sortOrder = Some (int k)\<rparr>"

definition numbered_db :: "nat \<Rightarrow> db" where
  "numbered_db n = \<lparr>listings = map numbered [0..<n], site_settings = None\<rparr>"

definition id_sequence :: "nat list \<Rightarrow> json list" where
  "id_sequence ks = map (\<lambda>k. JStr (hex_id k)) ks"

definition order_request :: "json list \<Rightarrow> json option" where
  "order_request order = Some (JDict [(''order'', JList order)])"


text \<open>Three calls of \<^verbatim>\<open>create_listing\<close> in a row on the store that holds the chair.\<close>

definition env_with_id :: "nat \<Rightarrow> env" where
  "env_with_id k = env0\<lparr>inserted_id := Oid (hex_id k)\<rparr>"

definition created1 :: listing where
  "created1 = new_doc (env_with_id 10) chair_db lamp"

definition db1 :: db where
  "db1 = chair_db\<lparr>listings := [chair, created1]\<rparr>"

definition created2 :: listing where
  "created2 = new_doc (env_with_id 11) db1 lamp"

definition db2 :: db where
  "db2 = chair_db\<lparr>listings := [chair, created1, created2]\<rparr>"

definition created3 :: listing where
  "created3 = new_doc (env_with_id 12) db2 lamp"

definition db3 :: db where
  "db3 = chair_db\<lparr>listings := [chair, created1, created2, created3]\<rparr>"

text \<open>The listing that \<^verbatim>\<open>create_listing\<close> adds to a store of 200 listings.\<close>

definition latecomer :: listing where
  "latecomer = new_doc (env_with_id 200) (numbered_db 200) lamp"

section \<open>The admin gate\<close>

text \<open>
  C2. Every mutating operation (create, update, delete and reorder of listings, update of
  the settings) that is called with a password different from the configured secret fails
  with Unauthorized, status 401, and returns the database as it was: the check comes before
  anything else the handler does.
\<close>

theorem wrong_password_no_effect:
  assumes "password \<noteq> ADMIN_PASSWORD e"
  shows "create_listing e d listing password = (Inl Unauthorized, d)
       \<and> update_listing e d listing_id updates password = (Inl Unauthorized, d)
       \<and> delete_listing e d listing_id password = (Inl Unauthorized, d)
       \<and> reorder_listings e d request password = (Inl Unauthorized, d)
       \<and> update_settings e d request password = (Inl Unauthorized, d)
       \<and> status_code Unauthorized = 401"
  using assms
  by (simp add: create_listing_def update_listing_def delete_listing_def
        reorder_listings_def update_settings_def verify_admin_def)

theorem wrong_password_no_effect_witness:
  "''guess'' \<noteq> ADMIN_PASSWORD env0
   \<and> create_listing env0 empty_db lamp ''guess'' = (Inl Unauthorized, empty_db)
   \<and> update_listing env0 empty_db ''65a0c0ffee0000000000000a'' no_updates ''guess''
       = (Inl Unauthorized, empty_db)
   \<and> delete_listing env0 empty_db ''65a0c0ffee0000000000000a'' ''guess''
       = (Inl Unauthorized, empty_db)
   \<and> reorder_listings env0 empty_db (Some (JDict [(''order'', JList [])])) ''guess''
       = (Inl Unauthorized, empty_db)
   \<and> update_settings env0 empty_db (Some (JDict [(''order'', JList [])])) ''guess''
       = (Inl Unauthorized, empty_db)"
proof -
  have h: "''guess'' \<noteq> ADMIN_PASSWORD env0"
    by (simp add: env0_def)
  show ?thesis
    using h wrong_password_no_effect [OF h, of empty_db lamp "''65a0c0ffee0000000000000a''"
        no_updates "Some (JDict [(''order'', JList [])])"]
    by simp
qed

section \<open>The store operations\<close>

lemma find_one_None_iff: "find_one ls i = None \<longleftrightarrow> i \<notin> id' ` set ls"
  by (induction ls) (auto simp: find_one_def)

lemma find_one_Some_D: "find_one ls i = Some l \<Longrightarrow> l \<in> set ls \<and> id' l = i"
  by (induction ls) (auto simp: find_one_def split: if_splits)

lemma update_one_unmatched: "i \<notin> id' ` set ls \<Longrightarrow> update_one ls i f = (ls, 0)"
  by (induction ls) auto

lemma update_one_count: "snd (update_one ls i f) = (if i \<in> id' ` set ls then 1 else 0)"
  by (induction ls) auto

lemma update_one_split:
  "i \<in> id' ` set ls \<Longrightarrow>
   \<exists>pre l post. ls = pre @ l # post \<and> id' l = i \<and> i \<notin> id' ` set pre
     \<and> fst (update_one ls i f) = pre @ f l # post"
proof (induction ls)
  case Nil
  then show ?case by simp
next
  case (Cons a ls)
  show ?case
  proof (cases "id' a = i")
    case True
    then have "a # ls = [] @ a # ls \<and> id' a = i \<and> i \<notin> id' ` set []
        \<and> fst (update_one (a # ls) i f) = [] @ f a # ls"
      by simp
    then show ?thesis by blast
  next
    case False
    with Cons.prems have "i \<in> id' ` set ls" by auto
    from Cons.IH [OF this] obtain pre l post where
      h: "ls = pre @ l # post" "id' l = i" "i \<notin> id' ` set pre"
         "fst (update_one ls i f) = pre @ f l # post"
      by blast
    with False have "a # ls = (a # pre) @ l # post \<and> id' l = i \<and> i \<notin> id' ` set (a # pre)
        \<and> fst (update_one (a # ls) i f) = (a # pre) @ f l # post"
      by auto
    then show ?thesis by blast
  qed
qed

lemma update_one_distinct:
  "distinct (map id' ls) \<Longrightarrow>
   fst (update_one ls i f) = map (\<lambda>l. if id' l = i then f l else l) ls"
proof (induction ls)
  case Nil
  then show ?case by simp
next
  case (Cons a ls)
  show ?case
  proof (cases "id' a = i")
    case True
    with Cons.prems have "i \<notin> id' ` set ls" by auto
    then have "map (\<lambda>l. if id' l = i then f l else l) ls = ls"
      by (intro map_idI) auto
    with True show ?thesis by simp
  next
    case False
    with Cons show ?thesis by simp
  qed
qed

lemma delete_one_unmatched: "i \<notin> id' ` set ls \<Longrightarrow> delete_one ls i = (ls, 0)"
  by (induction ls) auto

lemma delete_one_count: "snd (delete_one ls i) = (if i \<in> id' ` set ls then 1 else 0)"
  by (induction ls) auto

lemma delete_one_subset: "set (fst (delete_one ls i)) \<subseteq> set ls"
  by (induction ls) auto

lemma delete_one_gone:
  "distinct (map id' ls) \<Longrightarrow> i \<notin> id' ` set (fst (delete_one ls i))"
proof (induction ls)
  case Nil
  then show ?case by simp
next
  case (Cons a ls)
  then show ?case by (cases "id' a = i") auto
qed

lemma delete_one_distinct:
  "distinct (map id' ls) \<Longrightarrow> distinct (map id' (fst (delete_one ls i)))"
proof (induction ls)
  case Nil
  then show ?case by simp
next
  case (Cons a ls)
  have "id' ` set (fst (delete_one ls i)) \<subseteq> id' ` set ls"
    using delete_one_subset [of ls i] by blast
  with Cons show ?case by (cases "id' a = i") auto
qed

section \<open>Identifiers that match nothing\<close>

text \<open>
  C8. With the admin password, for every identifier that is malformed or matches no stored
  document, \<open>get_listing\<close> and \<open>delete_listing\<close> fail with NotFound, status 404, and
  return the database as it was. In a collection with unique identifiers, a delete
  followed by a delete or a get of the same identifier fails with NotFound and changes
  nothing, whatever the first delete did.
\<close>

theorem missing_id_not_found:
  assumes "password = ADMIN_PASSWORD e"
  shows "(\<not> is_valid listing_id \<or> find_one (listings d) (ObjectId listing_id) = None \<longrightarrow>
            get_listing e d listing_id = (Inl NotFound, d)
          \<and> delete_listing e d listing_id password = (Inl NotFound, d))
       \<and> (distinct (map id' (listings d)) \<longrightarrow>
            delete_listing e (snd (delete_listing e d listing_id password)) listing_id password
              = (Inl NotFound, snd (delete_listing e d listing_id password))
          \<and> get_listing e (snd (delete_listing e d listing_id password)) listing_id
              = (Inl NotFound, snd (delete_listing e d listing_id password)))
       \<and> status_code NotFound = 404"
proof -
  let ?i = "ObjectId listing_id"
  have first: "get_listing e d listing_id = (Inl NotFound, d)
      \<and> delete_listing e d listing_id password = (Inl NotFound, d)"
    if "\<not> is_valid listing_id \<or> find_one (listings d) ?i = None"
  proof (cases "is_valid listing_id")
    case False
    then show ?thesis
      using assms by (simp add: get_listing_def delete_listing_def verify_admin_def)
  next
    case True
    with that have none: "find_one (listings d) ?i = None" by simp
    then have "?i \<notin> id' ` set (listings d)" by (simp add: find_one_None_iff)
    then have "delete_one (listings d) ?i = (listings d, 0)" by (rule delete_one_unmatched)
    with none True show ?thesis
      using assms by (simp add: get_listing_def delete_listing_def verify_admin_def)
  qed
  have second: "delete_listing e (snd (delete_listing e d listing_id password)) listing_id password
              = (Inl NotFound, snd (delete_listing e d listing_id password))
          \<and> get_listing e (snd (delete_listing e d listing_id password)) listing_id
              = (Inl NotFound, snd (delete_listing e d listing_id password))"
    if wf: "distinct (map id' (listings d))"
  proof (cases "is_valid listing_id")
    case False
    then show ?thesis
      using assms by (simp add: get_listing_def delete_listing_def verify_admin_def)
  next
    case True
    let ?ls = "fst (delete_one (listings d) ?i)"
    have d': "snd (delete_listing e d listing_id password) = d\<lparr>listings := ?ls\<rparr>"
      using assms True by (simp add: delete_listing_def verify_admin_def Let_def)
    have gone: "?i \<notin> id' ` set ?ls" using wf by (rule delete_one_gone)
    then have a: "delete_one ?ls ?i = (?ls, 0)" by (rule delete_one_unmatched)
    from gone have b: "find_one ?ls ?i = None" by (simp add: find_one_None_iff)
    show ?thesis
      unfolding d' using assms True a b
      by (simp add: get_listing_def delete_listing_def verify_admin_def)
  qed
  from first second show ?thesis by simp
qed

theorem missing_id_not_found_witness:
  "get_listing env0 chair_db ''not-a-valid-id-format'' = (Inl NotFound, chair_db)
   \<and> delete_listing env0 chair_db ''not-a-valid-id-format'' ''changeme''
       = (Inl NotFound, chair_db)
   \<and> delete_listing env0 chair_db ''65A0C0FFEE00000000000002'' ''changeme''
       = (Inr (JDict [(''ok'', JBool True), (''deleted'', JStr ''65A0C0FFEE00000000000002'')]),
          empty_db)
   \<and> delete_listing env0 empty_db ''65A0C0FFEE00000000000002'' ''changeme''
       = (Inl NotFound, empty_db)
   \<and> get_listing env0 empty_db ''65A0C0FFEE00000000000002'' = (Inl NotFound, empty_db)"
proof -
  have pw: "''changeme'' = ADMIN_PASSWORD env0"
    by (simp add: env0_def)
  have bad: "\<not> is_valid ''not-a-valid-id-format''"
    by (simp add: is_valid_def)
  have wf: "distinct (map id' (listings chair_db))"
    by (simp add: chair_db_def)
  have del: "delete_listing env0 chair_db ''65A0C0FFEE00000000000002'' ''changeme''
       = (Inr (JDict [(''ok'', JBool True), (''deleted'', JStr ''65A0C0FFEE00000000000002'')]),
          empty_db)"
    by (simp add: delete_listing_def verify_admin_def env0_def is_valid_def is_hex_def
          ObjectId_def lower_hex_def chair_db_def chair_def empty_db_def)
  show ?thesis
    using bad wf del
      missing_id_not_found [OF pw, of "''not-a-valid-id-format''" chair_db]
      missing_id_not_found [OF pw, of "''65A0C0FFEE00000000000002''" chair_db]
    by simp
qed

section \<open>Partial update of a listing\<close>

lemma find_one_split:
  "i \<notin> id' ` set pre \<Longrightarrow> id' l = i \<Longrightarrow> find_one (pre @ l # post) i = Some l"
  by (induction pre) (auto simp: find_one_def)

lemma set_update_data_frame:
  "id' (set_update_data u now l) = id' l
   \<and> postedDate (set_update_data u now l) = postedDate l
   \<and> createdAt (set_update_data u now l) = createdAt l
   \<and> sortOrder (set_update_data u now l) = sortOrder l"
  by (simp add: set_update_data_def)

lemma update_listing_cases:
  assumes "password = ADMIN_PASSWORD e" and "is_valid listing_id"
    and "\<not> no_update_data updates"
  shows "update_listing e d listing_id updates password =
     (if ObjectId listing_id \<in> id' ` set (listings d)
      then (case find_one (fst (update_one (listings d) (ObjectId listing_id)
                    (set_update_data updates (utcnow e)))) (ObjectId listing_id) of
              None \<Rightarrow> (Inl ServerError,
                 d\<lparr>listings := fst (update_one (listings d) (ObjectId listing_id)
                    (set_update_data updates (utcnow e)))\<rparr>)
            | Some updated \<Rightarrow> (Inr (JDict (listing_to_dict e updated)),
                 d\<lparr>listings := fst (update_one (listings d) (ObjectId listing_id)
                    (set_update_data updates (utcnow e)))\<rparr>))
      else (Inl NotFound, d))"
  using assms
  by (simp add: update_listing_def verify_admin_def Let_def update_one_count
        update_one_unmatched)

lemma update_listing_success:
  assumes pw: "password = ADMIN_PASSWORD e" and valid: "is_valid listing_id"
    and some: "\<not> no_update_data updates"
    and found: "ObjectId listing_id \<in> id' ` set (listings d)"
  shows "\<exists>pre l post. listings d = pre @ l # post \<and> id' l = ObjectId listing_id
           \<and> ObjectId listing_id \<notin> id' ` set pre
           \<and> update_listing e d listing_id updates password =
               (Inr (JDict (listing_to_dict e (set_update_data updates (utcnow e) l))),
                d\<lparr>listings := pre @ set_update_data updates (utcnow e) l # post\<rparr>)"
proof -
  let ?i = "ObjectId listing_id" and ?f = "set_update_data updates (utcnow e)"
  from update_one_split [OF found, of ?f] obtain pre l post where
    h: "listings d = pre @ l # post" "id' l = ?i" "?i \<notin> id' ` set pre"
       "fst (update_one (listings d) ?i ?f) = pre @ ?f l # post"
    by blast
  have "id' (?f l) = ?i" using h(2) by (simp add: set_update_data_frame)
  with h(3) have "find_one (pre @ ?f l # post) ?i = Some (?f l)"
    by (simp add: find_one_split)
  with h(4) found have "update_listing e d listing_id updates password =
      (Inr (JDict (listing_to_dict e (?f l))), d\<lparr>listings := pre @ ?f l # post\<rparr>)"
    by (simp add: update_listing_cases [OF pw valid some])
  with h show ?thesis by blast
qed

lemma update_listing_Inr_D:
  assumes "update_listing e d listing_id updates password = (Inr r, d')"
  shows "password = ADMIN_PASSWORD e \<and> is_valid listing_id \<and> \<not> no_update_data updates
       \<and> ObjectId listing_id \<in> id' ` set (listings d)"
proof -
  have pw: "password = ADMIN_PASSWORD e"
    using assms by (auto simp: update_listing_def verify_admin_def split: if_splits)
  have valid: "is_valid listing_id"
    using assms pw by (auto simp: update_listing_def verify_admin_def split: if_splits)
  have some: "\<not> no_update_data updates"
    using assms pw valid by (auto simp: update_listing_def verify_admin_def split: if_splits)
  have "ObjectId listing_id \<in> id' ` set (listings d)"
    using assms by (auto simp: update_listing_cases [OF pw valid some] split: if_splits)
  with pw valid some show ?thesis by simp
qed

text \<open>
  C6. With the admin password and a well-formed identifier, \<open>update_listing\<close> with no
  effective field (none given, or every given one null: both arrive as None) fails with
  BadRequest, status 400, and returns the database as it was. When some field is given
  and a listing has the identifier, the update succeeds: the listing takes the given
  fields, keeps each field that was not given, gets the current time as \<open>updatedAt\<close> in
  the same write, and the response is made of the listing as updated.
\<close>

theorem update_listing_partial:
  assumes "password = ADMIN_PASSWORD e" and "is_valid listing_id"
  shows "(no_update_data updates \<longrightarrow>
            update_listing e d listing_id updates password = (Inl BadRequest, d))
       \<and> status_code BadRequest = 400
       \<and> (\<not> no_update_data updates \<and> find_one (listings d) (ObjectId listing_id) \<noteq> None \<longrightarrow>
            (\<exists>pre l post l'.
               listings d = pre @ l # post \<and> id' l = ObjectId listing_id
             \<and> ObjectId listing_id \<notin> id' ` set pre
             \<and> update_listing e d listing_id updates password =
                 (Inr (JDict (listing_to_dict e l')), d\<lparr>listings := pre @ l' # post\<rparr>)
             \<and> title l' = (case u_title updates of None \<Rightarrow> title l | Some v \<Rightarrow> v)
             \<and> price l' = (case u_price updates of None \<Rightarrow> price l | Some v \<Rightarrow> v)
             \<and> status l' = (case u_status updates of None \<Rightarrow> status l | Some v \<Rightarrow> v)
             \<and> image' l' = (case u_image updates of None \<Rightarrow> image' l | Some v \<Rightarrow> Some v)
             \<and> excerpt l' = (case u_excerpt updates of None \<Rightarrow> excerpt l | Some v \<Rightarrow> v)
             \<and> fullText l' = (case u_fullText updates of None \<Rightarrow> fullText l | Some v \<Rightarrow> v)
             \<and> facebookUrl l' =
                 (case u_facebookUrl updates of None \<Rightarrow> facebookUrl l | Some v \<Rightarrow> Some v)
             \<and> category l' = (case u_category updates of None \<Rightarrow> category l | Some v \<Rightarrow> v)
             \<and> location l' =
                 (case u_location updates of None \<Rightarrow> location l | Some v \<Rightarrow> Some v)
             \<and> updatedAt l' = utcnow e
             \<and> id' l' = id' l \<and> postedDate l' = postedDate l
             \<and> createdAt l' = createdAt l \<and> sortOrder l' = sortOrder l))"
proof -
  have empty: "update_listing e d listing_id updates password = (Inl BadRequest, d)"
    if "no_update_data updates"
    using assms that by (simp add: update_listing_def verify_admin_def)
  have success: "\<exists>pre l post l'.
               listings d = pre @ l # post \<and> id' l = ObjectId listing_id
             \<and> ObjectId listing_id \<notin> id' ` set pre
             \<and> update_listing e d listing_id updates password =
                 (Inr (JDict (listing_to_dict e l')), d\<lparr>listings := pre @ l' # post\<rparr>)
             \<and> title l' = (case u_title updates of None \<Rightarrow> title l | Some v \<Rightarrow> v)
             \<and> price l' = (case u_price updates of None \<Rightarrow> price l | Some v \<Rightarrow> v)
             \<and> status l' = (case u_status updates of None \<Rightarrow> status l | Some v \<Rightarrow> v)
             \<and> image' l' = (case u_image updates of None \<Rightarrow> image' l | Some v \<Rightarrow> Some v)
             \<and> excerpt l' = (case u_excerpt updates of None \<Rightarrow> excerpt l | Some v \<Rightarrow> v)
             \<and> fullText l' = (case u_fullText updates of None \<Rightarrow> fullText l | Some v \<Rightarrow> v)
             \<and> facebookUrl l' =
                 (case u_facebookUrl updates of None \<Rightarrow> facebookUrl l | Some v \<Rightarrow> Some v)
             \<and> category l' = (case u_category updates of None \<Rightarrow> category l | Some v \<Rightarrow> v)
             \<and> location l' =
                 (case u_location updates of None \<Rightarrow> location l | Some v \<Rightarrow> Some v)
             \<and> updatedAt l' = utcnow e
             \<and> id' l' = id' l \<and> postedDate l' = postedDate l
             \<and> createdAt l' = createdAt l \<and> sortOrder l' = sortOrder l"
    if some: "\<not> no_update_data updates"
      and found: "find_one (listings d) (ObjectId listing_id) \<noteq> None"
  proof -
    from found have "ObjectId listing_id \<in> id' ` set (listings d)"
      by (simp add: find_one_None_iff)
    from update_listing_success [OF assms some this] obtain pre l post where
      h: "listings d = pre @ l # post" "id' l = ObjectId listing_id"
         "ObjectId listing_id \<notin> id' ` set pre"
         "update_listing e d listing_id updates password =
               (Inr (JDict (listing_to_dict e (set_update_data updates (utcnow e) l))),
                d\<lparr>listings := pre @ set_update_data updates (utcnow e) l # post\<rparr>)"
      by blast
    show ?thesis
      apply (rule exI [of _ pre], rule exI [of _ l], rule exI [of _ post])
      apply (rule exI [of _ "set_update_data updates (utcnow e) l"])
      using h by (simp add: set_update_data_def)
  qed
  from empty success show ?thesis by simp
qed

theorem update_listing_partial_witness:
  "''changeme'' = ADMIN_PASSWORD env0 \<and> is_valid ''65a0c0ffee00000000000002''
   \<and> no_update_data no_updates \<and> \<not> no_update_data retitle
   \<and> find_one (listings chair_db) (ObjectId ''65a0c0ffee00000000000002'') \<noteq> None
   \<and> update_listing env0 chair_db ''65a0c0ffee00000000000002'' no_updates ''changeme''
       = (Inl BadRequest, chair_db)
   \<and> update_listing env0 chair_db ''65a0c0ffee00000000000002'' retitle ''changeme''
       = (Inr (JDict (listing_to_dict env0 (chair\<lparr>title := ''Chair'', updatedAt := noon\<rparr>))),
          chair_db\<lparr>listings := [chair\<lparr>title := ''Chair'', updatedAt := noon\<rparr>]\<rparr>)"
proof -
  have pw: "''changeme'' = ADMIN_PASSWORD env0"
    by (simp add: env0_def)
  have valid: "is_valid ''65a0c0ffee00000000000002''"
    by (simp add: is_valid_def is_hex_def)
  have none: "no_update_data no_updates"
    by (simp add: no_update_data_def no_updates_def)
  have some: "\<not> no_update_data retitle"
    by (simp add: no_update_data_def retitle_def no_updates_def)
  have found: "find_one (listings chair_db) (ObjectId ''65a0c0ffee00000000000002'') \<noteq> None"
    by (simp add: find_one_def chair_db_def chair_def ObjectId_def lower_hex_def)
  have upd: "update_listing env0 chair_db ''65a0c0ffee00000000000002'' retitle ''changeme''
       = (Inr (JDict (listing_to_dict env0 (chair\<lparr>title := ''Chair'', updatedAt := noon\<rparr>))),
          chair_db\<lparr>listings := [chair\<lparr>title := ''Chair'', updatedAt := noon\<rparr>]\<rparr>)"
    using valid some
    by (simp add: update_listing_def verify_admin_def env0_def find_one_def chair_db_def
          chair_def ObjectId_def lower_hex_def set_update_data_def retitle_def no_updates_def)
  show ?thesis
    using pw valid none some found upd
      update_listing_partial [OF pw valid, of no_updates chair_db]
      update_listing_partial [OF pw valid, of retitle chair_db]
    by simp
qed

text \<open>
  C9. \<open>update_listing\<close> never changes the \<open>createdAt\<close>, the identifier, the
  \<open>postedDate\<close> or the \<open>sortOrder\<close> of any listing, whether it succeeds or fails: the
  fields it writes are the nine content fields of \<open>ListingUpdate\<close> and \<open>updatedAt\<close>.
\<close>

theorem update_listing_frame:
  "map createdAt (listings (snd (update_listing e d listing_id updates password)))
     = map createdAt (listings d)
   \<and> map id' (listings (snd (update_listing e d listing_id updates password)))
     = map id' (listings d)
   \<and> map postedDate (listings (snd (update_listing e d listing_id updates password)))
     = map postedDate (listings d)
   \<and> map sortOrder (listings (snd (update_listing e d listing_id updates password)))
     = map sortOrder (listings d)"
proof (cases "password = ADMIN_PASSWORD e \<and> is_valid listing_id \<and> \<not> no_update_data updates
    \<and> ObjectId listing_id \<in> id' ` set (listings d)")
  case True
  with update_listing_success [of password e listing_id updates d]
  obtain pre l post where
    h: "listings d = pre @ l # post"
       "update_listing e d listing_id updates password =
               (Inr (JDict (listing_to_dict e (set_update_data updates (utcnow e) l))),
                d\<lparr>listings := pre @ set_update_data updates (utcnow e) l # post\<rparr>)"
    by blast
  then show ?thesis by (simp add: set_update_data_frame)
next
  case False
  have "snd (update_listing e d listing_id updates password) = d"
  proof (cases "password = ADMIN_PASSWORD e \<and> is_valid listing_id \<and> \<not> no_update_data updates")
    case True
    with False show ?thesis
      by (simp add: update_listing_cases)
  next
    case False
    then show ?thesis
      by (auto simp: update_listing_def verify_admin_def)
  qed
  then show ?thesis by simp
qed

theorem update_listing_frame_witness:
  "fst (update_listing env0 chair_db ''65a0c0ffee00000000000002'' retitle ''changeme'')
     = Inr (JDict (listing_to_dict env0 (chair\<lparr>title := ''Chair'', updatedAt := noon\<rparr>)))
   \<and> map createdAt
        (listings (snd (update_listing env0 chair_db ''65a0c0ffee00000000000002'' retitle
           ''changeme''))) = [Some 1762214400000000]
   \<and> map id'
        (listings (snd (update_listing env0 chair_db ''65a0c0ffee00000000000002'' retitle
           ''changeme''))) = [Oid ''65a0c0ffee00000000000002'']
   \<and> map postedDate
        (listings (snd (update_listing env0 chair_db ''65a0c0ffee00000000000002'' retitle
           ''changeme''))) = [1705017600000000]
   \<and> map sortOrder
        (listings (snd (update_listing env0 chair_db ''65a0c0ffee00000000000002'' retitle
           ''changeme''))) = [None]"
proof -
  have valid: "is_valid ''65a0c0ffee00000000000002''"
    by (simp add: is_valid_def is_hex_def)
  have some: "\<not> no_update_data retitle"
    by (simp add: no_update_data_def retitle_def no_updates_def)
  have upd: "fst (update_listing env0 chair_db ''65a0c0ffee00000000000002'' retitle ''changeme'')
     = Inr (JDict (listing_to_dict env0 (chair\<lparr>title := ''Chair'', updatedAt := noon\<rparr>)))"
    using valid some
    by (simp add: update_listing_def verify_admin_def env0_def find_one_def chair_db_def
          chair_def ObjectId_def lower_hex_def set_update_data_def retitle_def no_updates_def)
  have old: "map createdAt (listings chair_db) = [Some 1762214400000000]
      \<and> map id' (listings chair_db) = [Oid ''65a0c0ffee00000000000002'']
      \<and> map postedDate (listings chair_db) = [1705017600000000]
      \<and> map sortOrder (listings chair_db) = [None]"
    by (simp add: chair_db_def chair_def)
  show ?thesis
    using upd old
      update_listing_frame [of env0 chair_db "''65a0c0ffee00000000000002''" retitle
        "''changeme''"]
    by simp
qed

section \<open>Reordering\<close>

lemma update_one_ids:
  "(\<And>l. id' (f l) = id' l) \<Longrightarrow> map id' (fst (update_one ls i f)) = map id' ls"
  by (induction ls) auto

lemma reorder_loop_ids: "map id' (reorder_loop ls i order) = map id' ls"
proof (induction order arbitrary: ls i)
  case Nil
  then show ?case by simp
next
  case (Cons lid order)
  show ?case by (simp add: Cons.IH update_one_ids)
qed

lemma reorder_loop_blank:
  "reorder_loop ls i order =
   reorder_loop ls i
     (map (\<lambda>lid. if is_valid_json lid \<and> find_one ls (ObjectId_json lid) = None
                 then JNull else lid) order)"
proof (induction order arbitrary: ls i)
  case Nil
  then show ?case by simp
next
  case (Cons lid order)
  let ?f = "\<lambda>l. l\<lparr>sortOrder := Some (int i)\<rparr>"
  let ?ls1 = "if is_valid_json lid then fst (update_one ls (ObjectId_json lid) ?f) else ls"
  have "map id' ?ls1 = map id' ls" by (simp add: update_one_ids)
  then have "id' ` set ?ls1 = id' ` set ls" by (metis set_map)
  then have same: "find_one ?ls1 x = None \<longleftrightarrow> find_one ls x = None" for x
    by (simp add: find_one_None_iff)
  have step: "reorder_loop ?ls1 (Suc i) order =
      reorder_loop ?ls1 (Suc i)
        (map (\<lambda>lid. if is_valid_json lid \<and> find_one ls (ObjectId_json lid) = None
                 then JNull else lid) order)"
    using Cons.IH [of ?ls1 "Suc i"] by (simp only: same)
  show ?case
  proof (cases "is_valid_json lid \<and> find_one ls (ObjectId_json lid) = None")
    case True
    then have "ObjectId_json lid \<notin> id' ` set ls" by (simp add: find_one_None_iff)
    then have "update_one ls (ObjectId_json lid) ?f = (ls, 0)" by (rule update_one_unmatched)
    with True step show ?thesis by simp
  next
    case False
    with step show ?thesis by auto
  qed
qed

lemma reorder_loop_unmatched:
  "\<forall>lid\<in>set order. is_valid_json lid \<longrightarrow> find_one ls (ObjectId_json lid) = None
   \<Longrightarrow> reorder_loop ls i order = ls"
proof (induction order arbitrary: i)
  case Nil
  then show ?case by simp
next
  case (Cons lid order)
  have "is_valid_json lid \<Longrightarrow> update_one ls (ObjectId_json lid) f = (ls, 0)" for f
    using Cons.prems by (simp add: find_one_None_iff update_one_unmatched)
  with Cons show ?case by simp
qed

lemma reorder_listings_ok:
  assumes "password = ADMIN_PASSWORD e" and "request = Some (JDict data)"
    and "map_of data ''order'' = Some (JList order)"
  shows "reorder_listings e d request password =
           (Inr ok, d\<lparr>listings := reorder_loop (listings d) 0 order\<rparr>)"
  using assms by (simp add: reorder_listings_def verify_admin_def)

lemma reorder_target_None:
  "reorder_target i order x = None \<longleftrightarrow>
   (\<forall>lid\<in>set order. \<not> (is_valid_json lid \<and> ObjectId_json lid = x))"
proof (induction order arbitrary: i)
  case Nil
  then show ?case by simp
next
  case (Cons lid order)
  show ?case
  proof (cases "reorder_target (Suc i) order x")
    case None
    with Cons.IH [of "Suc i"] show ?thesis by auto
  next
    case (Some j)
    with Cons.IH [of "Suc i"] show ?thesis by auto
  qed
qed

lemma reorder_target_Some:
  "reorder_target i order x = Some j \<Longrightarrow>
   i \<le> j \<and> j < i + length order
   \<and> is_valid_json (order ! (j - i)) \<and> ObjectId_json (order ! (j - i)) = x
   \<and> (\<forall>k. j - i < k \<and> k < length order \<longrightarrow>
          \<not> (is_valid_json (order ! k) \<and> ObjectId_json (order ! k) = x))"
proof (induction order arbitrary: i)
  case Nil
  then show ?case by simp
next
  case (Cons lid order)
  show ?case
  proof (cases "reorder_target (Suc i) order x")
    case None
    with Cons.prems have j: "j = i" and den: "is_valid_json lid" "ObjectId_json lid = x"
      by (auto split: if_splits)
    have "\<not> (is_valid_json ((lid # order) ! k) \<and> ObjectId_json ((lid # order) ! k) = x)"
      if "0 < k" "k < length (lid # order)" for k
    proof -
      from that have "(lid # order) ! k = order ! (k - 1)" "k - 1 < length order"
        by (auto simp: nth_Cons')
      moreover from this have "order ! (k - 1) \<in> set order" by simp
      ultimately show ?thesis using None by (simp only: reorder_target_None) blast
    qed
    with j den show ?thesis by simp
  next
    case (Some j')
    with Cons.prems have j: "j' = j" by simp
    from Cons.IH [OF Some [unfolded j]] have
      ih: "Suc i \<le> j" "j < Suc i + length order"
          "is_valid_json (order ! (j - Suc i))" "ObjectId_json (order ! (j - Suc i)) = x"
          "\<forall>k. j - Suc i < k \<and> k < length order \<longrightarrow>
              \<not> (is_valid_json (order ! k) \<and> ObjectId_json (order ! k) = x)"
      by simp_all
    from ih(1) have nth: "(lid # order) ! (j - i) = order ! (j - Suc i)"
      by (simp add: nth_Cons')
    have "\<not> (is_valid_json ((lid # order) ! k) \<and> ObjectId_json ((lid # order) ! k) = x)"
      if "j - i < k" "k < length (lid # order)" for k
    proof -
      from that ih(1) have "(lid # order) ! k = order ! (k - 1)" "j - Suc i < k - 1"
          "k - 1 < length order"
        by (auto simp: nth_Cons')
      with ih(5) show ?thesis by simp
    qed
    with ih nth show ?thesis by simp
  qed
qed

lemma reorder_target_last:
  assumes "j < length order"
    and "is_valid_json (order ! j)" and "ObjectId_json (order ! j) = x"
    and "\<forall>k. j < k \<and> k < length order \<longrightarrow>
           \<not> (is_valid_json (order ! k) \<and> ObjectId_json (order ! k) = x)"
  shows "reorder_target 0 order x = Some j"
proof -
  from assms(1) have "order ! j \<in> set order" by simp
  with assms(2,3) have "reorder_target 0 order x \<noteq> None"
    by (simp only: reorder_target_None) blast
  then obtain j' where t: "reorder_target 0 order x = Some j'" by blast
  from reorder_target_Some [OF t] have
    h: "j' < length order" "is_valid_json (order ! j')" "ObjectId_json (order ! j') = x"
       "\<forall>k. j' < k \<and> k < length order \<longrightarrow>
           \<not> (is_valid_json (order ! k) \<and> ObjectId_json (order ! k) = x)"
    by simp_all
  have "\<not> j' < j" using h(4) assms(1,2,3) by blast
  moreover have "\<not> j < j'" using assms(4) h(1,2,3) by blast
  ultimately have "j' = j" by simp
  with t show ?thesis by simp
qed

lemma reorder_loop_distinct:
  "distinct (map id' ls) \<Longrightarrow>
   reorder_loop ls i order =
     map (\<lambda>l. case reorder_target i order (id' l) of
                 None \<Rightarrow> l | Some j \<Rightarrow> l\<lparr>sortOrder := Some (int j)\<rparr>) ls"
proof (induction order arbitrary: ls i)
  case Nil
  then show ?case by simp
next
  case (Cons lid order)
  let ?f = "\<lambda>l. l\<lparr>sortOrder := Some (int i)\<rparr>"
  let ?h = "\<lambda>l. if is_valid_json lid \<and> id' l = ObjectId_json lid then ?f l else l"
  let ?g = "\<lambda>l. case reorder_target (Suc i) order (id' l) of
                 None \<Rightarrow> l | Some j \<Rightarrow> l\<lparr>sortOrder := Some (int j)\<rparr>"
  have ls1: "(if is_valid_json lid then fst (update_one ls (ObjectId_json lid) ?f) else ls)
      = map ?h ls"
    using Cons.prems by (simp add: update_one_distinct)
  have "map id' (map ?h ls) = map id' ls" by (simp add: o_def)
  with Cons.prems have "distinct (map id' (map ?h ls))" by (simp only:)
  from Cons.IH [OF this, of "Suc i"]
  have "reorder_loop (map ?h ls) (Suc i) order = map ?g (map ?h ls)" .
  also have "\<dots> = map (\<lambda>l. case reorder_target i (lid # order) (id' l) of
                 None \<Rightarrow> l | Some j \<Rightarrow> l\<lparr>sortOrder := Some (int j)\<rparr>) ls"
    by (auto split: option.splits)
  finally show ?case using ls1 by simp
qed

lemma sort_key_canonical:
  fixes f :: "'a \<Rightarrow> int option"
  assumes "distinct (map f xs)"
    and "set (map f xs) = (\<lambda>j. Some (int j)) ` {..<length xs}"
  shows "map f (sort_key f xs) = map (\<lambda>j. Some (int j)) [0..<length xs]"
proof -
  have "sorted (map f (sort_key f xs))" by simp
  moreover have "distinct (map f (sort_key f xs))"
    using assms(1) by (metis distinct_map distinct_sort set_sort)
  moreover have "sorted (map (\<lambda>j. Some (int j)) [0..<length xs])"
    by (simp add: sorted_iff_nth_mono)
  moreover have "distinct (map (\<lambda>j. Some (int j)) [0..<length xs])"
    by (simp add: distinct_map inj_on_def)
  moreover have "set (map f (sort_key f xs)) = set (map (\<lambda>j. Some (int j)) [0..<length xs])"
    using assms(2) by (simp add: lessThan_atLeast0)
  ultimately show ?thesis by (rule sorted_distinct_set_unique)
qed

lemma full_reorder_sorted:
  assumes wf: "distinct (map id' ls)"
    and valid: "\<forall>lid\<in>set order. is_valid_json lid"
    and dist: "distinct (map ObjectId_json order)"
    and full: "set (map ObjectId_json order) = id' ` set ls"
  shows "map id' (sort_key sortOrder (reorder_loop ls 0 order)) = map ObjectId_json order"
proof -
  let ?oids = "map ObjectId_json order"
  let ?n = "length order"
  let ?ls' = "reorder_loop ls 0 order"
  let ?ss = "sort_key sortOrder ?ls'"
  have "card (set ?oids) = length ?oids" using dist by (rule distinct_card)
  moreover have "card (set (map id' ls)) = length (map id' ls)" using wf by (rule distinct_card)
  ultimately have len: "length ls = ?n" using full by simp
  have ids': "map id' ?ls' = map id' ls" by (rule reorder_loop_ids)
  then have len': "length ?ls' = ?n" using len by (metis length_map)
  have wf': "distinct (map id' ?ls')" using wf ids' by simp
  have pos: "\<exists>j<?n. sortOrder l' = Some (int j) \<and> ?oids ! j = id' l'" if "l' \<in> set ?ls'" for l'
  proof -
    from that obtain l where l: "l \<in> set ls"
      and l': "l' = (case reorder_target 0 order (id' l) of
                 None \<Rightarrow> l | Some j \<Rightarrow> l\<lparr>sortOrder := Some (int j)\<rparr>)"
      using reorder_loop_distinct [OF wf, of 0 order] by auto
    from l full have "id' l \<in> set ?oids" by blast
    then obtain lid where "lid \<in> set order" "ObjectId_json lid = id' l" by auto
    with valid have "reorder_target 0 order (id' l) \<noteq> None"
      by (simp only: reorder_target_None) blast
    then obtain j where t: "reorder_target 0 order (id' l) = Some j" by blast
    from reorder_target_Some [OF t] have "j < ?n" "ObjectId_json (order ! j) = id' l"
      by simp_all
    with t l' show ?thesis by auto
  qed
  have inj: "inj_on sortOrder (set ?ls')"
  proof (rule inj_onI)
    fix a b
    assume a: "a \<in> set ?ls'" and b: "b \<in> set ?ls'" and eq: "sortOrder a = sortOrder b"
    from pos [OF a] pos [OF b] eq have "id' a = id' b" by auto
    moreover from wf' have "inj_on id' (set ?ls')" by (simp add: distinct_map)
    ultimately show "a = b" using a b by (simp add: inj_on_def)
  qed
  from wf' have "distinct ?ls'" by (simp add: distinct_map)
  with inj have dk: "distinct (map sortOrder ?ls')" by (simp add: distinct_map)
  have sub: "set (map sortOrder ?ls') \<subseteq> (\<lambda>j. Some (int j)) ` {..<?n}"
    using pos by auto
  have "card (set (map sortOrder ?ls')) = ?n"
    using distinct_card [OF dk] len' by simp
  moreover have "card ((\<lambda>j. Some (int j)) ` {..<?n}) = ?n"
    by (simp add: card_image inj_on_def)
  ultimately have "set (map sortOrder ?ls') = (\<lambda>j. Some (int j)) ` {..<?n}"
    using sub by (simp add: card_subset_eq)
  with dk len' have keys: "map sortOrder ?ss = map (\<lambda>j. Some (int j)) [0..<?n]"
    using sort_key_canonical [of sortOrder ?ls'] by simp
  show ?thesis
  proof (rule nth_equalityI)
    show "length (map id' ?ss) = length ?oids" using len' by simp
  next
    fix k
    assume "k < length (map id' ?ss)"
    then have k: "k < ?n" using len' by simp
    then have "?ss ! k \<in> set ?ls'" using len' by (metis length_sort nth_mem set_sort)
    from pos [OF this] obtain j where
      j: "j < ?n" "sortOrder (?ss ! k) = Some (int j)" "?oids ! j = id' (?ss ! k)"
      by blast
    from keys k len' have "sortOrder (?ss ! k) = Some (int k)"
      by (metis (no_types, lifting) add_0 length_map length_sort nth_map nth_upt)
    with j have "j = k" by simp
    with j k len' show "map id' ?ss ! k = ?oids ! k" by simp
  qed
qed

subsection \<open>The numbered identifiers\<close>

lemma hexdigit_cases:
  assumes "n < 16"
  shows "is_hex (hexdigit n) \<and> lower_hex (hexdigit n) = hexdigit n"
proof -
  from assms have "n \<in> {0, 1, 2, 3, 4, 5, 6, 7, 8, 9, 10, 11, 12, 13, 14, 15}" by simp arith
  then show ?thesis
    by (auto simp: hexdigit_def is_hex_def lower_hex_def)
qed

lemma hexdigit_inj:
  assumes "m < 16" and "n < 16" and "hexdigit m = hexdigit n"
  shows "m = n"
proof -
  have "distinct ''0123456789abcdef''" by simp
  moreover have "m < length ''0123456789abcdef''" "n < length ''0123456789abcdef''"
    using assms(1,2) by simp_all
  ultimately show ?thesis
    using assms(3) unfolding hexdigit_def by (simp only: nth_eq_iff_index_eq)
qed

lemma hex_id_valid: "k < 256 \<Longrightarrow> is_valid (hex_id k)"
  using hexdigit_cases [of "k div 16"] hexdigit_cases [of "k mod 16"]
  by (simp add: is_valid_def hex_id_def is_hex_def)

lemma hex_id_ObjectId: "k < 256 \<Longrightarrow> ObjectId (hex_id k) = Oid (hex_id k)"
  using hexdigit_cases [of "k div 16"] hexdigit_cases [of "k mod 16"]
  by (simp add: ObjectId_def hex_id_def lower_hex_def)

lemma hex_id_inj:
  assumes "k < 256" and "k' < 256" and "hex_id k = hex_id k'"
  shows "k = k'"
proof -
  from assms(3) have "hexdigit (k div 16) = hexdigit (k' div 16)"
      "hexdigit (k mod 16) = hexdigit (k' mod 16)"
    by (simp_all add: hex_id_def)
  with assms(1,2) have "k div 16 = k' div 16" "k mod 16 = k' mod 16"
    by (auto intro: hexdigit_inj)
  then show ?thesis by (metis div_mult_mod_eq)
qed

lemma id_sequence_valid:
  "\<forall>k\<in>set ks. k < 256 \<Longrightarrow> list_all is_valid_json (id_sequence ks)"
  by (simp add: id_sequence_def list_all_iff hex_id_valid)

lemma id_sequence_oids:
  "\<forall>k\<in>set ks. k < 256 \<Longrightarrow> map ObjectId_json (id_sequence ks) = map (\<lambda>k. Oid (hex_id k)) ks"
  by (simp add: id_sequence_def hex_id_ObjectId)

lemma id_sequence_distinct:
  assumes "\<forall>k\<in>set ks. k < 256" and "distinct ks"
  shows "distinct (map ObjectId_json (id_sequence ks))"
proof -
  have "inj_on (\<lambda>k. Oid (hex_id k)) (set ks)"
    using assms(1) by (auto simp: inj_on_def dest: hex_id_inj)
  with assms show ?thesis by (simp add: id_sequence_oids distinct_map)
qed

lemma numbered_db_ids: "map id' (listings (numbered_db n)) = map (\<lambda>k. Oid (hex_id k)) [0..<n]"
  by (simp add: numbered_db_def numbered_def o_def)

lemma find_listings_length: "length (find_listings d cat) \<le> 200"
  by (simp add: find_listings_def)

lemma upt_3: "[0..<3] = [0, 1, 2]"
  by code_simp

lemma numbered_db_3: "listings (numbered_db 3) = [numbered 0, numbered 1, numbered 2]"
  by (simp add: numbered_db_def upt_3)

subsection \<open>Identifiers that match no listing\<close>

text \<open>
  C10. With the admin password and a body whose \<^verbatim>\<open>order\<close> is a list,
  \<open>reorder_listings\<close> returns \<^verbatim>\<open>{"ok": True}\<close> for every list: it does not check that
  an identifier exists. A well-formed identifier that matches no listing changes nothing:
  the database comes out as if that entry had been null, and when no well-formed entry
  matches a listing the database is returned as it was.
\<close>

theorem reorder_unknown_ids:
  assumes "password = ADMIN_PASSWORD e" and "request = Some (JDict data)"
    and "map_of data ''order'' = Some (JList order)"
  shows "fst (reorder_listings e d request password) = Inr ok
       \<and> ((\<forall>lid\<in>set order. is_valid_json lid \<longrightarrow>
              find_one (listings d) (ObjectId_json lid) = None) \<longrightarrow>
            snd (reorder_listings e d request password) = d)
       \<and> snd (reorder_listings e d request password) =
           snd (reorder_listings e d
                  (Some (JDict [(''order'', JList
                     (map (\<lambda>lid. if is_valid_json lid
                                     \<and> find_one (listings d) (ObjectId_json lid) = None
                                 then JNull else lid) order))]))
                  password)"
proof -
  have a: "reorder_listings e d request password =
           (Inr ok, d\<lparr>listings := reorder_loop (listings d) 0 order\<rparr>)"
    using assms by (rule reorder_listings_ok)
  have b: "reorder_loop (listings d) 0 order = listings d"
    if "\<forall>lid\<in>set order. is_valid_json lid \<longrightarrow> find_one (listings d) (ObjectId_json lid) = None"
    using that by (rule reorder_loop_unmatched)
  have c: "reorder_listings e d
                  (Some (JDict [(''order'', JList
                     (map (\<lambda>lid. if is_valid_json lid
                                     \<and> find_one (listings d) (ObjectId_json lid) = None
                                 then JNull else lid) order))]))
                  password
     = (Inr ok, d\<lparr>listings := reorder_loop (listings d) 0
           (map (\<lambda>lid. if is_valid_json lid \<and> find_one (listings d) (ObjectId_json lid) = None
                       then JNull else lid) order)\<rparr>)"
    using assms(1) by (simp add: reorder_listings_def verify_admin_def)
  show ?thesis
    unfolding a c using b reorder_loop_blank [of "listings d" 0 order] by simp
qed

theorem reorder_unknown_ids_witness:
  "''changeme'' = ADMIN_PASSWORD env0
   \<and> list_all is_valid_json (id_sequence [10, 11])
   \<and> find_one (listings chair_db) (ObjectId (hex_id 10)) = None
   \<and> find_one (listings chair_db) (ObjectId (hex_id 11)) = None
   \<and> reorder_listings env0 chair_db (order_request (id_sequence [10, 11])) ''changeme''
       = (Inr ok, chair_db)"
proof -
  have pw: "''changeme'' = ADMIN_PASSWORD env0"
    by (simp add: env0_def)
  have valid: "list_all is_valid_json (id_sequence [10, 11])"
    by (rule id_sequence_valid) simp
  have none: "find_one (listings chair_db) (ObjectId (hex_id 10)) = None"
      "find_one (listings chair_db) (ObjectId (hex_id 11)) = None"
    by (simp_all add: ObjectId_def lower_hex_def find_one_def chair_db_def chair_def hex_id_def
          hexdigit_def)
  then have unmatched: "\<forall>lid\<in>set (id_sequence [10, 11]). is_valid_json lid \<longrightarrow>
      find_one (listings chair_db) (ObjectId_json lid) = None"
    by (simp add: id_sequence_def)
  have "fst (reorder_listings env0 chair_db (order_request (id_sequence [10, 11])) ''changeme'')
          = Inr ok
      \<and> snd (reorder_listings env0 chair_db (order_request (id_sequence [10, 11])) ''changeme'')
          = chair_db"
    using unmatched
      reorder_unknown_ids [OF pw, of "order_request (id_sequence [10, 11])"
        "[(''order'', JList (id_sequence [10, 11]))]" "id_sequence [10, 11]" chair_db]
    by (simp add: order_request_def)
  then have "reorder_listings env0 chair_db (order_request (id_sequence [10, 11])) ''changeme''
       = (Inr ok, chair_db)"
    by (simp add: prod_eq_iff)
  with pw valid none show ?thesis by simp
qed

subsection \<open>The positions assigned\<close>

text \<open>
  C3, as amended. With the admin password, a body whose \<^verbatim>\<open>order\<close> is a list and
  unique identifiers in the collection, \<open>reorder_listings\<close> returns success and changes
  nothing but \<open>sortOrder\<close> fields: a listing whose identifier is spelled by a well-formed
  entry gets the 0-based index of the last such entry (its only one when the sequence has
  no repetition), malformed entries are skipped but counted, and a listing that no
  well-formed entry spells stays as it was. After a reorder that names every listing
  exactly once, \<open>find_listings\<close> without a filter, hence the response of
  \<open>get_listings\<close>, follows the submitted order, cut after 200 entries.
\<close>

theorem reorder_positions:
  assumes "password = ADMIN_PASSWORD e" and "request = Some (JDict data)"
    and "map_of data ''order'' = Some (JList order)"
    and "distinct (map id' (listings d))"
  shows "fst (reorder_listings e d request password) = Inr ok
       \<and> site_settings (snd (reorder_listings e d request password)) = site_settings d
       \<and> length (listings (snd (reorder_listings e d request password))) = length (listings d)
       \<and> (\<forall>k<length (listings d).
            (\<forall>j<length order.
               is_valid_json (order ! j) \<and> ObjectId_json (order ! j) = id' (listings d ! k)
               \<and> (\<forall>j'. j < j' \<and> j' < length order \<longrightarrow>
                      \<not> (is_valid_json (order ! j')
                         \<and> ObjectId_json (order ! j') = id' (listings d ! k))) \<longrightarrow>
               listings (snd (reorder_listings e d request password)) ! k =
                 (listings d ! k)\<lparr>sortOrder := Some (int j)\<rparr>)
          \<and> ((\<forall>lid\<in>set order.
                 \<not> (is_valid_json lid \<and> ObjectId_json lid = id' (listings d ! k))) \<longrightarrow>
               listings (snd (reorder_listings e d request password)) ! k = listings d ! k))
       \<and> ((\<forall>lid\<in>set order. is_valid_json lid) \<and> distinct (map ObjectId_json order)
            \<and> set (map ObjectId_json order) = id' ` set (listings d) \<longrightarrow>
            map id' (find_listings (snd (reorder_listings e d request password)) None)
              = take 200 (map ObjectId_json order))"
proof -
  let ?g = "\<lambda>l. case reorder_target 0 order (id' l) of
                 None \<Rightarrow> l | Some j \<Rightarrow> l\<lparr>sortOrder := Some (int j)\<rparr>"
  have r: "reorder_listings e d request password =
           (Inr ok, d\<lparr>listings := reorder_loop (listings d) 0 order\<rparr>)"
    using assms(1,2,3) by (rule reorder_listings_ok)
  have m: "reorder_loop (listings d) 0 order = map ?g (listings d)"
    using assms(4) by (rule reorder_loop_distinct)
  have moved: "map ?g (listings d) ! k = (listings d ! k)\<lparr>sortOrder := Some (int j)\<rparr>"
    if "k < length (listings d)" "j < length order"
      "is_valid_json (order ! j) \<and> ObjectId_json (order ! j) = id' (listings d ! k)
       \<and> (\<forall>j'. j < j' \<and> j' < length order \<longrightarrow>
              \<not> (is_valid_json (order ! j')
                 \<and> ObjectId_json (order ! j') = id' (listings d ! k)))" for k j
  proof -
    from that(2,3) have "reorder_target 0 order (id' (listings d ! k)) = Some j"
      by (intro reorder_target_last) simp_all
    with that(1) show ?thesis by simp
  qed
  have kept: "map ?g (listings d) ! k = listings d ! k"
    if "k < length (listings d)"
      "\<forall>lid\<in>set order. \<not> (is_valid_json lid \<and> ObjectId_json lid = id' (listings d ! k))"
    for k
  proof -
    from that(2) have "reorder_target 0 order (id' (listings d ! k)) = None"
      by (simp only: reorder_target_None)
    with that(1) show ?thesis by simp
  qed
  have listed: "map id' (find_listings (d\<lparr>listings := reorder_loop (listings d) 0 order\<rparr>) None)
              = take 200 (map ObjectId_json order)"
    if "(\<forall>lid\<in>set order. is_valid_json lid) \<and> distinct (map ObjectId_json order)
            \<and> set (map ObjectId_json order) = id' ` set (listings d)"
  proof -
    from that have "map id' (sort_key sortOrder (reorder_loop (listings d) 0 order))
        = map ObjectId_json order"
      by (intro full_reorder_sorted assms(4)) simp_all
    then have "take 200 (map id' (sort_key sortOrder (reorder_loop (listings d) 0 order)))
        = take 200 (map ObjectId_json order)"
      by (simp only:)
    then show ?thesis
      by (simp add: find_listings_def find_sorted_def listings_query_def take_map)
  qed
  show ?thesis
    unfolding r using m moved kept listed by simp
qed

theorem reorder_positions_witness:
  "''changeme'' = ADMIN_PASSWORD env0
   \<and> distinct (map id' (listings (numbered_db 3)))
   \<and> list_all is_valid_json (id_sequence [2, 0, 1])
   \<and> distinct (map ObjectId_json (id_sequence [2, 0, 1]))
   \<and> set (map ObjectId_json (id_sequence [2, 0, 1])) = id' ` set (listings (numbered_db 3))
   \<and> fst (reorder_listings env0 (numbered_db 3) (order_request (id_sequence [2, 0, 1]))
            ''changeme'') = Inr ok
   \<and> listings (snd (reorder_listings env0 (numbered_db 3)
                       (order_request (id_sequence [2, 0, 1])) ''changeme''))
       = [(numbered 0)\<lparr>sortOrder := Some 1\<rparr>, (numbered 1)\<lparr>sortOrder := Some 2\<rparr>,
          (numbered 2)\<lparr>sortOrder := Some 0\<rparr>]
   \<and> map id' (find_listings
         (snd (reorder_listings env0 (numbered_db 3)
                 (order_request (id_sequence [2, 0, 1])) ''changeme'')) None)
       = [Oid (hex_id 2), Oid (hex_id 0), Oid (hex_id 1)]
   \<and> listings (snd (reorder_listings env0 (numbered_db 3)
                       (order_request [JStr (hex_id 2), JStr ''not-an-id'', JNull]) ''changeme''))
       = [numbered 0, numbered 1, (numbered 2)\<lparr>sortOrder := Some 0\<rparr>]"
proof -
  let ?d = "numbered_db 3" and ?order = "id_sequence [2, 0, 1]"
  let ?partial = "[JStr (hex_id 2), JStr ''not-an-id'', JNull]"
  have pw: "''changeme'' = ADMIN_PASSWORD env0"
    by (simp add: env0_def)
  have wf: "distinct (map id' (listings ?d))"
    using id_sequence_distinct [of "[0..<3]"]
    by (simp add: numbered_db_ids id_sequence_oids)
  have valid: "list_all is_valid_json ?order"
    by (rule id_sequence_valid) simp
  have dist: "distinct (map ObjectId_json ?order)"
    by (rule id_sequence_distinct) simp_all
  have oids: "map ObjectId_json ?order = [Oid (hex_id 2), Oid (hex_id 0), Oid (hex_id 1)]"
    by (simp add: id_sequence_oids)
  have ids: "map id' (listings ?d) = [Oid (hex_id 0), Oid (hex_id 1), Oid (hex_id 2)]"
    by (simp add: numbered_db_ids upt_3)
  have full: "set (map ObjectId_json ?order) = id' ` set (listings ?d)"
    unfolding oids using ids by (metis insert_commute list.simps(15) set_map)
  have T: "fst (reorder_listings env0 ?d (order_request ?order) ''changeme'') = Inr ok
      \<and> map id' (find_listings
            (snd (reorder_listings env0 ?d (order_request ?order) ''changeme'')) None)
          = take 200 (map ObjectId_json ?order)"
    using valid dist full
      reorder_positions [OF pw, of "order_request ?order" "[(''order'', JList ?order)]"
        ?order ?d, OF _ _ wf]
    by (simp add: order_request_def list_all_iff)
  have neq: "hex_id 0 \<noteq> hex_id 1" "hex_id 0 \<noteq> hex_id 2" "hex_id 1 \<noteq> hex_id 2"
      "hex_id 1 \<noteq> hex_id 0" "hex_id 2 \<noteq> hex_id 0" "hex_id 2 \<noteq> hex_id 1"
    by (simp_all add: hex_id_def hexdigit_def)
  have bad: "\<not> is_valid ''not-an-id''"
    by (simp add: is_valid_def)
  have l1: "listings (snd (reorder_listings env0 ?d (order_request ?order) ''changeme''))
       = [(numbered 0)\<lparr>sortOrder := Some 1\<rparr>, (numbered 1)\<lparr>sortOrder := Some 2\<rparr>,
          (numbered 2)\<lparr>sortOrder := Some 0\<rparr>]"
    using neq
    by (simp add: reorder_listings_def verify_admin_def env0_def order_request_def
          id_sequence_def numbered_db_3 hex_id_valid hex_id_ObjectId numbered_def)
  have l2: "listings (snd (reorder_listings env0 ?d (order_request ?partial) ''changeme''))
       = [numbered 0, numbered 1, (numbered 2)\<lparr>sortOrder := Some 0\<rparr>]"
    using neq bad
    by (simp add: reorder_listings_def verify_admin_def env0_def order_request_def
          numbered_db_3 hex_id_valid hex_id_ObjectId numbered_def)
  from pw wf valid dist full T l1 l2 show ?thesis
    unfolding oids by simp
qed

text \<open>
  The claim without the cut fails: with 201 listings, all named once in the sequence,
  at most 200 listings are returned, which is not the submitted order.
\<close>

theorem reorder_beyond_cap_counterexample:
  "fst (reorder_listings env0 (numbered_db 201) (order_request (id_sequence (rev [0..<201])))
          ''changeme'') = Inr ok
   \<and> list_all is_valid_json (id_sequence (rev [0..<201]))
   \<and> distinct (map ObjectId_json (id_sequence (rev [0..<201])))
   \<and> map id' (listings (numbered_db 201)) = rev (map ObjectId_json (id_sequence (rev [0..<201])))
   \<and> map id' (find_listings
         (snd (reorder_listings env0 (numbered_db 201)
                 (order_request (id_sequence (rev [0..<201]))) ''changeme'')) None)
       \<noteq> map ObjectId_json (id_sequence (rev [0..<201]))"
proof -
  have small: "\<forall>k\<in>set (rev [0..<201]). k < 256" by simp
  have a: "fst (reorder_listings env0 (numbered_db 201)
              (order_request (id_sequence (rev [0..<201]))) ''changeme'') = Inr ok"
    by (simp add: reorder_listings_def verify_admin_def env0_def order_request_def)
  have b: "list_all is_valid_json (id_sequence (rev [0..<201]))"
    using small by (rule id_sequence_valid)
  have c: "distinct (map ObjectId_json (id_sequence (rev [0..<201])))"
    using small by (rule id_sequence_distinct) simp
  have d: "map id' (listings (numbered_db 201))
      = rev (map ObjectId_json (id_sequence (rev [0..<201])))"
    by (simp only: numbered_db_ids id_sequence_oids [OF small] rev_map rev_rev_ident)
  have l1: "length (map id' (find_listings
         (snd (reorder_listings env0 (numbered_db 201)
                 (order_request (id_sequence (rev [0..<201]))) ''changeme'')) None)) \<le> 200"
    by (simp only: length_map find_listings_length)
  have l2: "length (map ObjectId_json (id_sequence (rev [0..<201]))) = 201"
    by (simp add: id_sequence_def)
  have e: "map id' (find_listings
         (snd (reorder_listings env0 (numbered_db 201)
                 (order_request (id_sequence (rev [0..<201]))) ''changeme'')) None)
       \<noteq> map ObjectId_json (id_sequence (rev [0..<201]))"
  proof
    assume "map id' (find_listings
         (snd (reorder_listings env0 (numbered_db 201)
                 (order_request (id_sequence (rev [0..<201]))) ''changeme'')) None)
       = map ObjectId_json (id_sequence (rev [0..<201]))"
    with l1 have "length (map ObjectId_json (id_sequence (rev [0..<201]))) \<le> 200"
      by (simp only:)
    with l2 show False by simp
  qed
  from a b c d e show ?thesis by simp
qed

section \<open>The settings document\<close>

lemma map_of_set_fields:
  "distinct (map fst data) \<Longrightarrow> map_of (set_fields data doc) = map_of doc ++ map_of data"
proof (induction data arbitrary: doc)
  case Nil
  then show ?case by (simp add: set_fields_def)
next
  case (Cons kv data)
  obtain k v where kv: "kv = (k, v)" by (cases kv)
  from Cons.prems kv have fresh: "map_of data k = None" and dist: "distinct (map fst data)"
    by (auto simp: map_of_eq_None_iff)
  have "map_of (set_fields (kv # data) doc) = map_of (set_fields data (AList.update k v doc))"
    by (simp add: set_fields_def kv)
  also have "\<dots> = (map_of doc)(k \<mapsto> v) ++ map_of data"
    by (simp only: Cons.IH [OF dist] AList.update_conv')
  also have "\<dots> = map_of doc ++ map_of (kv # data)"
    using fresh by (auto simp: kv map_add_def fun_eq_iff split: option.splits)
  finally show ?case .
qed

lemma map_of_backfill: "map_of (backfill defaults s) = map_of defaults ++ map_of s"
proof (induction defaults arbitrary: s)
  case Nil
  then show ?case by (simp add: backfill_def)
next
  case (Cons kv defaults)
  obtain k v where kv: "kv = (k, v)" by (cases kv)
  let ?s1 = "if map_of s k = None then AList.update k v s else s"
  have "map_of (backfill (kv # defaults) s) = map_of (backfill defaults ?s1)"
    by (simp add: backfill_def kv)
  also have "\<dots> = map_of defaults ++ map_of ?s1"
    by (rule Cons.IH)
  also have "\<dots> = map_of (kv # defaults) ++ map_of s"
    by (auto simp: kv map_add_def fun_eq_iff AList.update_conv' split: option.splits)
  finally show ?case .
qed

lemma get_settings_map:
  "\<exists>s. get_settings d = (Inr (JDict s), d)
     \<and> map_of s = map_of DEFAULT_SETTINGS ++
         (case site_settings d of None \<Rightarrow> Map.empty
          | Some doc \<Rightarrow> (map_of doc)(''_id'' := None))"
proof (cases "site_settings d")
  case None
  then show ?thesis by (simp add: get_settings_def)
next
  case (Some doc)
  then show ?thesis by (simp add: get_settings_def map_of_backfill AList.delete_conv')
qed

lemma update_settings_map:
  assumes "password = ADMIN_PASSWORD e" and "request = Some (JDict data)"
    and "distinct (map fst data)"
    and "map_of data ''_id'' = None \<or> map_of data ''_id'' = Some (JStr ''site'')"
  shows "\<exists>doc. update_settings e d request password = (Inr ok, d\<lparr>site_settings := Some doc\<rparr>)
       \<and> map_of doc =
           (map_of (case site_settings d of
                      None \<Rightarrow> [(''_id'', JStr ''site'')] | Some old \<Rightarrow> old) ++ map_of data)
             (''updatedAt'' \<mapsto> JStr (isoformat e (utcnow e)))"
proof -
  let ?stamp = "JStr (isoformat e (utcnow e))"
  let ?data = "AList.update ''updatedAt'' ?stamp data"
  let ?base = "case site_settings d of None \<Rightarrow> [(''_id'', JStr ''site'')] | Some old \<Rightarrow> old"
  have id_ok: "map_of ?data ''_id'' = None \<or> map_of ?data ''_id'' = Some (JStr ''site'')"
    using assms(4) by (simp add: AList.update_conv')
  have dist: "distinct (map fst ?data)"
    using assms(3) by (rule AList.distinct_update)
  have "upsert_site (site_settings d) ?data = Inr (Some (set_fields ?data ?base))"
    using id_ok by (auto simp: upsert_site_def)
  then have "update_settings e d request password
      = (Inr ok, d\<lparr>site_settings := Some (set_fields ?data ?base)\<rparr>)"
    using assms(1,2) by (simp add: update_settings_def verify_admin_def)
  moreover have "map_of (set_fields ?data ?base)
      = (map_of ?base ++ map_of data)(''updatedAt'' \<mapsto> ?stamp)"
    by (simp add: map_of_set_fields [OF dist] AList.update_conv')
  ultimately show ?thesis by blast
qed




text \<open>
  C5. \<open>get_settings\<close> leaves the database as it was. Without a settings document it
  returns the default map; with one it returns the fields of the document, the identifier
  left out, and for every key of the default map that the document lacks the default
  value. After \<open>update_settings\<close> with the body \<^verbatim>\<open>{"siteTitle": x}\<close> it returns what
  it returned before with \<^verbatim>\<open>siteTitle\<close> set to \<open>x\<close> and \<^verbatim>\<open>updatedAt\<close> set to
  the time of the call: on a store without settings, the default map with these two fields.
\<close>

theorem get_settings_defaults:
  "snd (get_settings d) = d
   \<and> (site_settings d = None \<longrightarrow> fst (get_settings d) = Inr (JDict DEFAULT_SETTINGS))
   \<and> (\<forall>doc. site_settings d = Some doc \<longrightarrow>
         (\<exists>s. fst (get_settings d) = Inr (JDict s)
            \<and> map_of s = map_of DEFAULT_SETTINGS ++ (map_of doc)(''_id'' := None)))
   \<and> (password = ADMIN_PASSWORD e \<longrightarrow>
         (\<exists>s s'. fst (get_settings d) = Inr (JDict s)
            \<and> fst (get_settings
                 (snd (update_settings e d (Some (JDict [(''siteTitle'', JStr x)])) password)))
               = Inr (JDict s')
            \<and> map_of s' = (map_of s)(''siteTitle'' \<mapsto> JStr x,
                              ''updatedAt'' \<mapsto> JStr (isoformat e (utcnow e)))))"
proof -
  from get_settings_map [of d] obtain s where
    s: "get_settings d = (Inr (JDict s), d)"
       "map_of s = map_of DEFAULT_SETTINGS ++
         (case site_settings d of None \<Rightarrow> Map.empty
          | Some doc \<Rightarrow> (map_of doc)(''_id'' := None))"
    by blast
  have a: "snd (get_settings d) = d" using s(1) by simp
  have b: "fst (get_settings d) = Inr (JDict DEFAULT_SETTINGS)" if "site_settings d = None"
    using that by (simp add: get_settings_def)
  have c: "\<exists>s. fst (get_settings d) = Inr (JDict s)
            \<and> map_of s = map_of DEFAULT_SETTINGS ++ (map_of doc)(''_id'' := None)"
    if "site_settings d = Some doc" for doc
    using s that by auto
  have u: "\<exists>s s'. fst (get_settings d) = Inr (JDict s)
            \<and> fst (get_settings
                 (snd (update_settings e d (Some (JDict [(''siteTitle'', JStr x)])) password)))
               = Inr (JDict s')
            \<and> map_of s' = (map_of s)(''siteTitle'' \<mapsto> JStr x,
                              ''updatedAt'' \<mapsto> JStr (isoformat e (utcnow e)))"
    if pw: "password = ADMIN_PASSWORD e"
  proof -
    let ?stamp = "JStr (isoformat e (utcnow e))"
    let ?base = "case site_settings d of None \<Rightarrow> [(''_id'', JStr ''site'')] | Some old \<Rightarrow> old"
    from update_settings_map [OF pw refl, of "[(''siteTitle'', JStr x)]" d]
    obtain doc where
      doc: "update_settings e d (Some (JDict [(''siteTitle'', JStr x)])) password
              = (Inr ok, d\<lparr>site_settings := Some doc\<rparr>)"
           "map_of doc = (map_of ?base ++ map_of [(''siteTitle'', JStr x)])(''updatedAt'' \<mapsto> ?stamp)"
      by auto
    from get_settings_map [of "d\<lparr>site_settings := Some doc\<rparr>"] obtain s' where
      s': "get_settings (d\<lparr>site_settings := Some doc\<rparr>) = (Inr (JDict s'), d\<lparr>site_settings := Some doc\<rparr>)"
          "map_of s' = map_of DEFAULT_SETTINGS ++ (map_of doc)(''_id'' := None)"
      by auto
    have "map_of s' = (map_of s)(''siteTitle'' \<mapsto> JStr x, ''updatedAt'' \<mapsto> ?stamp)"
      unfolding s'(2) s(2) doc(2)
      by (auto simp: fun_eq_iff map_add_def split: option.splits)
    with s(1) s'(1) doc(1) show ?thesis by simp
  qed
  from a b c u show ?thesis by blast
qed

theorem get_settings_defaults_witness:
  "site_settings empty_db = None
   \<and> ''changeme'' = ADMIN_PASSWORD env0
   \<and> get_settings empty_db = (Inr (JDict DEFAULT_SETTINGS), empty_db)
   \<and> (\<exists>s'. fst (get_settings
                (snd (update_settings env0 empty_db
                        (Some (JDict [(''siteTitle'', JStr ''X'')])) ''changeme'')))
              = Inr (JDict s')
          \<and> map_of s' = (map_of DEFAULT_SETTINGS)
               (''siteTitle'' \<mapsto> JStr ''X'', ''updatedAt'' \<mapsto> JStr ''2025-11-04T12:00:00''))
   \<and> (\<exists>s. fst (get_settings
               (empty_db\<lparr>site_settings :=
                  Some [(''_id'', JStr ''site''), (''tagline'', JStr ''kept'')]\<rparr>))
             = Inr (JDict s)
          \<and> map_of s = map_of DEFAULT_SETTINGS ++ [''tagline'' \<mapsto> JStr ''kept''])"
proof -
  let ?d1 = "empty_db\<lparr>site_settings := Some [(''_id'', JStr ''site''), (''tagline'', JStr ''kept'')]\<rparr>"
  have none: "site_settings empty_db = None"
    by (simp add: empty_db_def)
  have pw: "''changeme'' = ADMIN_PASSWORD env0"
    by (simp add: env0_def)
  have stamp: "isoformat env0 (utcnow env0) = ''2025-11-04T12:00:00''"
    by (simp add: env0_def)
  have some: "site_settings ?d1 = Some [(''_id'', JStr ''site''), (''tagline'', JStr ''kept'')]"
    by simp
  have m: "(map_of [(''_id'', JStr ''site''), (''tagline'', JStr ''kept'')])(''_id'' := None)
      = [''tagline'' \<mapsto> JStr ''kept'']"
    by (auto simp: fun_eq_iff)
  note T = get_settings_defaults [of empty_db "''changeme''" env0 "''X''"]
  note T1 = get_settings_defaults [of ?d1 "''changeme''" env0 "''X''"]
  from T none have a: "get_settings empty_db = (Inr (JDict DEFAULT_SETTINGS), empty_db)"
    by (simp add: prod_eq_iff)
  from T pw a have b: "\<exists>s'. fst (get_settings
                (snd (update_settings env0 empty_db
                        (Some (JDict [(''siteTitle'', JStr ''X'')])) ''changeme'')))
              = Inr (JDict s')
          \<and> map_of s' = (map_of DEFAULT_SETTINGS)
               (''siteTitle'' \<mapsto> JStr ''X'', ''updatedAt'' \<mapsto> JStr ''2025-11-04T12:00:00'')"
    by (auto simp: stamp)
  from T1 some have c: "\<exists>s. fst (get_settings ?d1) = Inr (JDict s)
          \<and> map_of s = map_of DEFAULT_SETTINGS ++ [''tagline'' \<mapsto> JStr ''kept'']"
    unfolding m [symmetric] by blast
  from none pw a b c show ?thesis by simp
qed

section \<open>Listing the listings\<close>





lemma numbered_sortOrder: "sortOrder (numbered k) = Some (int k)"
  by (simp add: numbered_def)

lemma chair_sortOrder: "sortOrder chair = None"
  by (simp add: chair_def)

lemma mixed_sorted: "sort_key sortOrder [numbered 2, chair, numbered 0] = [chair, numbered 0, numbered 2]"
  by (simp add: numbered_sortOrder chair_sortOrder)



section \<open>Creating listings\<close>

lemma find_one_sort_desc_None: "find_one_sort_desc ls = None \<longleftrightarrow> ls = []"
proof (cases "rev (sort_key sortOrder (rev ls))")
  case Nil
  then have "length (sort_key sortOrder (rev ls)) = 0" by simp
  then have "ls = []" by simp
  with Nil show ?thesis by (simp add: find_one_sort_desc_def)
next
  case (Cons m rest)
  then have "length (sort_key sortOrder (rev ls)) \<noteq> 0" by auto
  then have "ls \<noteq> []" by simp
  with Cons show ?thesis by (simp add: find_one_sort_desc_def)
qed

lemma find_one_sort_desc_Some:
  assumes "find_one_sort_desc ls = Some m"
  shows "m \<in> set ls \<and> (\<forall>l\<in>set ls. sortOrder l \<le> sortOrder m)"
proof -
  from assms obtain rest where r: "rev (sort_key sortOrder (rev ls)) = m # rest"
    by (auto simp: find_one_sort_desc_def split: list.splits)
  then have s: "sort_key sortOrder (rev ls) = rev rest @ [m]"
    by (metis rev.simps(2) rev_rev_ident)
  have "set (sort_key sortOrder (rev ls)) = set ls" by simp
  with s have set: "set ls = set rest \<union> {m}" by auto
  have "sorted (map sortOrder (sort_key sortOrder (rev ls)))" by simp
  with s have "\<forall>l\<in>set rest. sortOrder l \<le> sortOrder m"
    by (simp add: sorted_append)
  with set show ?thesis by auto
qed

lemma next_sortOrder_Max:
  "next_sortOrder ls =
     (if ls = [] then 0
      else case Max (sortOrder ` set ls) of None \<Rightarrow> 1 | Some n \<Rightarrow> n + 1)"
proof (cases "find_one_sort_desc ls")
  case None
  then have "ls = []" by (simp add: find_one_sort_desc_None)
  with None show ?thesis by (simp add: next_sortOrder_def)
next
  case (Some m)
  then have ne: "ls \<noteq> []" using find_one_sort_desc_None [of ls] by auto
  from find_one_sort_desc_Some [OF Some]
  have "Max (sortOrder ` set ls) = sortOrder m"
    by (intro Max_eqI) auto
  with Some ne show ?thesis
    by (simp add: next_sortOrder_def split: option.splits)
qed

lemma next_sortOrder_above: "l \<in> set ls \<Longrightarrow> sortOrder l < Some (next_sortOrder ls)"
proof -
  assume l: "l \<in> set ls"
  then have "find_one_sort_desc ls \<noteq> None" by (auto simp: find_one_sort_desc_None)
  then obtain m where m: "find_one_sort_desc ls = Some m" by blast
  from find_one_sort_desc_Some [OF m] l have le: "sortOrder l \<le> sortOrder m" by blast
  have "sortOrder m < Some (next_sortOrder ls)"
    using m by (cases "sortOrder m") (simp_all add: next_sortOrder_def)
  with le show ?thesis by simp
qed

lemma insort_key_snoc:
  "f x \<le> f y \<Longrightarrow> insort_key f x (ys @ [y]) = insort_key f x ys @ [y]"
  by (induction ys) auto

lemma sort_key_snoc:
  "\<forall>x\<in>set xs. f x \<le> f y \<Longrightarrow> sort_key f (xs @ [y]) = sort_key f xs @ [y]"
proof -
  assume le: "\<forall>x\<in>set xs. f x \<le> f y"
  have "foldr (insort_key f) xs [y] = sort_key f xs @ [y]"
    using le by (induction xs) (simp_all add: sort_key_def insort_key_snoc)
  then show ?thesis by (simp add: sort_key_def)
qed

lemma new_doc_sortOrder: "sortOrder (new_doc e d listing) = Some (next_sortOrder (listings d))"
  by (simp add: new_doc_def)

lemma new_doc_id: "id' (new_doc e d listing) = inserted_id e"
  by (simp add: new_doc_def)

lemma create_listing_success:
  assumes "password = ADMIN_PASSWORD e" and "inserted_id e \<notin> id' ` set (listings d)"
  shows "create_listing e d listing password =
           (Inr (JDict (listing_to_dict e (new_doc e d listing))),
            d\<lparr>listings := listings d @ [new_doc e d listing]\<rparr>)"
proof -
  have "find_one (listings d @ [new_doc e d listing]) (inserted_id e) = Some (new_doc e d listing)"
    using assms(2) find_one_split [of "inserted_id e" "listings d" "new_doc e d listing" "[]"]
    by (simp add: new_doc_id)
  with assms show ?thesis
    by (simp add: create_listing_def verify_admin_def insert_one_def new_doc_id)
qed

lemma create_listing_Inr_D:
  assumes "create_listing e d listing password = (Inr r, d')"
  shows "password = ADMIN_PASSWORD e \<and> inserted_id e \<notin> id' ` set (listings d)"
  using assms
  by (auto simp: create_listing_def verify_admin_def insert_one_def new_doc_id
      split: if_splits)

lemma create_listing_step:
  assumes "create_listing e d listing password = (Inr r, d')"
  shows "r = JDict (listing_to_dict e (new_doc e d listing))
       \<and> d' = d\<lparr>listings := listings d @ [new_doc e d listing]\<rparr>
       \<and> find_sorted d' None = find_sorted d None @ [new_doc e d listing]"
proof -
  from create_listing_Inr_D [OF assms] create_listing_success [of password e d listing] assms
  have r: "r = JDict (listing_to_dict e (new_doc e d listing))"
    and d': "d' = d\<lparr>listings := listings d @ [new_doc e d listing]\<rparr>"
    by simp_all
  have "\<forall>l\<in>set (listings d). sortOrder l \<le> sortOrder (new_doc e d listing)"
    using next_sortOrder_above [of _ "listings d"]
    by (auto simp: new_doc_sortOrder intro: less_imp_le)
  then have "sort_key sortOrder (listings d @ [new_doc e d listing])
      = sort_key sortOrder (listings d) @ [new_doc e d listing]"
    by (rule sort_key_snoc)
  with r d' show ?thesis by (simp add: find_sorted_def)
qed

lemma next_sortOrder_snoc:
  "next_sortOrder (ls @ [new_doc e d listing]) = next_sortOrder (listings d) + 1"
  if "\<forall>l\<in>set ls. sortOrder l \<le> sortOrder (new_doc e d listing)"
proof -
  have "Max (sortOrder ` set (ls @ [new_doc e d listing])) = sortOrder (new_doc e d listing)"
    using that by (intro Max_eqI) auto
  then show ?thesis
    by (simp add: next_sortOrder_Max new_doc_sortOrder)
qed

text \<open>
  C1, as amended. A successful \<open>create_listing\<close> gives the new listing the \<open>sortOrder\<close>
  0 when there is no listing, 1 when there are listings but none stores a \<open>sortOrder\<close>
  (the seeded ones store none), and otherwise one more than the greatest stored
  \<open>sortOrder\<close>; the response shows that value. Three listings created in a row get
  consecutive, hence strictly increasing, values; they are stored after the earlier
  listings and sort after them in creation order, so that \<open>find_listings\<close> without a
  filter returns the earlier listings followed by the three, cut after 200 entries.
\<close>

theorem create_listing_sortOrder:
  assumes "create_listing e1 d0 l1 p1 = (Inr r1, d1)"
    and "create_listing e2 d1 l2 p2 = (Inr r2, d2)"
    and "create_listing e3 d2 l3 p3 = (Inr r3, d3)"
  shows "r1 = JDict (listing_to_dict e1 (new_doc e1 d0 l1))
       \<and> r2 = JDict (listing_to_dict e2 (new_doc e2 d1 l2))
       \<and> r3 = JDict (listing_to_dict e3 (new_doc e3 d2 l3))
       \<and> map_of (listing_to_dict e1 (new_doc e1 d0 l1)) ''sortOrder''
           = Some (JInt (if listings d0 = [] then 0
                         else case Max (sortOrder ` set (listings d0)) of
                                None \<Rightarrow> 1 | Some n \<Rightarrow> n + 1))
       \<and> sortOrder (new_doc e1 d0 l1)
           = Some (if listings d0 = [] then 0
                   else case Max (sortOrder ` set (listings d0)) of
                          None \<Rightarrow> 1 | Some n \<Rightarrow> n + 1)
       \<and> sortOrder (new_doc e2 d1 l2) = Some (the (sortOrder (new_doc e1 d0 l1)) + 1)
       \<and> sortOrder (new_doc e3 d2 l3) = Some (the (sortOrder (new_doc e2 d1 l2)) + 1)
       \<and> sortOrder (new_doc e1 d0 l1) < sortOrder (new_doc e2 d1 l2)
       \<and> sortOrder (new_doc e2 d1 l2) < sortOrder (new_doc e3 d2 l3)
       \<and> listings d3 = listings d0 @ [new_doc e1 d0 l1, new_doc e2 d1 l2, new_doc e3 d2 l3]
       \<and> find_listings d3 None
           = take 200 (find_sorted d0 None @ [new_doc e1 d0 l1, new_doc e2 d1 l2, new_doc e3 d2 l3])"
proof -
  let ?n1 = "new_doc e1 d0 l1" and ?n2 = "new_doc e2 d1 l2" and ?n3 = "new_doc e3 d2 l3"
  note s1 = create_listing_step [OF assms(1)]
  note s2 = create_listing_step [OF assms(2)]
  note s3 = create_listing_step [OF assms(3)]
  have so1: "sortOrder ?n1 = Some (if listings d0 = [] then 0
                   else case Max (sortOrder ` set (listings d0)) of
                          None \<Rightarrow> 1 | Some n \<Rightarrow> n + 1)"
    by (simp only: new_doc_sortOrder next_sortOrder_Max)
  then have resp: "map_of (listing_to_dict e1 ?n1) ''sortOrder''
           = Some (JInt (if listings d0 = [] then 0
                         else case Max (sortOrder ` set (listings d0)) of
                                None \<Rightarrow> 1 | Some n \<Rightarrow> n + 1))"
    by (simp add: listing_to_dict_def)
  have le1: "\<forall>l\<in>set (listings d0). sortOrder l \<le> sortOrder ?n1"
    using next_sortOrder_above [of _ "listings d0"]
    by (auto simp: new_doc_sortOrder intro: less_imp_le)
  have ls1: "listings d1 = listings d0 @ [?n1]" using s1 by simp
  have n2: "next_sortOrder (listings d1) = next_sortOrder (listings d0) + 1"
    unfolding ls1 using le1 by (rule next_sortOrder_snoc)
  have le2: "\<forall>l\<in>set (listings d1). sortOrder l \<le> sortOrder ?n2"
    using next_sortOrder_above [of _ "listings d1"]
    by (auto simp: new_doc_sortOrder intro: less_imp_le)
  have ls2: "listings d2 = listings d1 @ [?n2]" using s2 by simp
  have n3: "next_sortOrder (listings d2) = next_sortOrder (listings d1) + 1"
    unfolding ls2 using le2 by (rule next_sortOrder_snoc)
  have ls3: "listings d3 = listings d2 @ [?n3]" using s3 by simp
  have so2: "sortOrder ?n2 = Some (the (sortOrder ?n1) + 1)"
    by (simp add: new_doc_sortOrder n2)
  have so3: "sortOrder ?n3 = Some (the (sortOrder ?n2) + 1)"
    by (simp add: new_doc_sortOrder n3)
  have lt12: "sortOrder ?n1 < sortOrder ?n2"
    by (simp add: new_doc_sortOrder n2)
  have lt23: "sortOrder ?n2 < sortOrder ?n3"
    by (simp add: new_doc_sortOrder n3)
  have all: "listings d3 = listings d0 @ [?n1, ?n2, ?n3]"
    by (simp add: ls1 ls2 ls3)
  note fs1 = s1 [THEN conjunct2, THEN conjunct2]
  note fs2 = s2 [THEN conjunct2, THEN conjunct2]
  note fs3 = s3 [THEN conjunct2, THEN conjunct2]
  have "find_sorted d3 None = find_sorted d0 None @ [?n1, ?n2, ?n3]"
    by (simp only: fs1 fs2 fs3 append_assoc append_Cons append_Nil)
  then have listed: "find_listings d3 None = take 200 (find_sorted d0 None @ [?n1, ?n2, ?n3])"
    by (simp add: find_listings_def listings_query_def)
  show ?thesis
  proof (intro conjI)
    show "r1 = JDict (listing_to_dict e1 ?n1)" using s1 by simp
    show "r2 = JDict (listing_to_dict e2 ?n2)" using s2 by simp
    show "r3 = JDict (listing_to_dict e3 ?n3)" using s3 by simp
  qed (fact resp so1 so2 so3 lt12 lt23 all listed)+
qed

theorem create_listing_sortOrder_witness:
  "create_listing (env_with_id 10) chair_db lamp ''changeme''
     = (Inr (JDict (listing_to_dict (env_with_id 10) created1)), db1)
   \<and> create_listing (env_with_id 11) db1 lamp ''changeme''
     = (Inr (JDict (listing_to_dict (env_with_id 11) created2)), db2)
   \<and> create_listing (env_with_id 12) db2 lamp ''changeme''
     = (Inr (JDict (listing_to_dict (env_with_id 12) created3)), db3)
   \<and> sortOrder created1 = Some 1 \<and> sortOrder created2 = Some 2 \<and> sortOrder created3 = Some 3
   \<and> find_listings db3 None = [chair, created1, created2, created3]"
proof -
  have pw: "''changeme'' = ADMIN_PASSWORD (env_with_id k)" for k
    by (simp add: env_with_id_def env0_def)
  have ids: "id' chair = Oid (hex_id 2)" "id' created1 = Oid (hex_id 10)"
      "id' created2 = Oid (hex_id 11)" "inserted_id (env_with_id k) = Oid (hex_id k)" for k
    by (simp_all add: chair_def created1_def created2_def new_doc_id env_with_id_def
          hex_id_def hexdigit_def)
  have neq: "hex_id 10 \<noteq> hex_id 2" "hex_id 11 \<noteq> hex_id 2" "hex_id 12 \<noteq> hex_id 2"
      "hex_id 11 \<noteq> hex_id 10" "hex_id 12 \<noteq> hex_id 10" "hex_id 12 \<noteq> hex_id 11"
    by (simp_all add: hex_id_def hexdigit_def)
  have f1: "inserted_id (env_with_id 10) \<notin> id' ` set (listings chair_db)"
    using neq by (simp add: chair_db_def ids)
  have f2: "inserted_id (env_with_id 11) \<notin> id' ` set (listings db1)"
    using neq by (simp add: db1_def chair_db_def ids)
  have f3: "inserted_id (env_with_id 12) \<notin> id' ` set (listings db2)"
    using neq by (simp add: db2_def chair_db_def ids)
  have c1: "create_listing (env_with_id 10) chair_db lamp ''changeme''
     = (Inr (JDict (listing_to_dict (env_with_id 10) created1)), db1)"
    using create_listing_success [OF pw f1, of lamp]
    by (simp add: created1_def db1_def chair_db_def)
  have c2: "create_listing (env_with_id 11) db1 lamp ''changeme''
     = (Inr (JDict (listing_to_dict (env_with_id 11) created2)), db2)"
    using create_listing_success [OF pw f2, of lamp]
    by (simp add: created2_def db2_def db1_def chair_db_def)
  have c3: "create_listing (env_with_id 12) db2 lamp ''changeme''
     = (Inr (JDict (listing_to_dict (env_with_id 12) created3)), db3)"
    using create_listing_success [OF pw f3, of lamp]
    by (simp add: created3_def db3_def db2_def chair_db_def)
  note T = create_listing_sortOrder [OF c1 c2 c3, folded created1_def created2_def created3_def]
  have mx: "Max (sortOrder ` set (listings chair_db)) = None" "listings chair_db \<noteq> []"
    by (simp_all add: chair_db_def chair_sortOrder)
  from T have so1: "sortOrder created1 = Some 1"
    by (simp add: mx)
  with T have so2: "sortOrder created2 = Some 2"
    by simp
  with T have so3: "sortOrder created3 = Some 3"
    by simp
  have "find_sorted chair_db None = [chair]"
    by (simp add: find_sorted_def chair_db_def)
  with T have listed: "find_listings db3 None = [chair, created1, created2, created3]"
    by simp
  from c1 c2 c3 so1 so2 so3 listed show ?thesis
    by (simp only: simp_thms)
qed

lemma latecomer_not_listed:
  "create_listing (env_with_id 200) (numbered_db 200) lamp ''changeme''
     = (Inr (JDict (listing_to_dict (env_with_id 200) latecomer)),
        (numbered_db 200)\<lparr>listings := listings (numbered_db 200) @ [latecomer]\<rparr>)
   \<and> latecomer \<notin> set (find_listings
         (snd (create_listing (env_with_id 200) (numbered_db 200) lamp ''changeme'')) None)"
proof -
  let ?e = "env_with_id 200" and ?d = "numbered_db 200"
  have pw: "''changeme'' = ADMIN_PASSWORD ?e"
    by (simp add: env_with_id_def env0_def)
  have id: "id' latecomer = Oid (hex_id 200)" "inserted_id ?e = Oid (hex_id 200)"
    by (simp_all add: latecomer_def new_doc_id env_with_id_def)
  have fresh: "Oid (hex_id 200) \<notin> id' ` set (listings ?d)"
  proof
    assume "Oid (hex_id 200) \<in> id' ` set (listings ?d)"
    then have "Oid (hex_id 200) \<in> set (map id' (listings ?d))" by simp
    then obtain k where "k < 200" "hex_id 200 = hex_id k"
      unfolding numbered_db_ids by auto
    then show False using hex_id_inj [of 200 k] by simp
  qed
  then have c: "create_listing ?e ?d lamp ''changeme''
     = (Inr (JDict (listing_to_dict ?e latecomer)), ?d\<lparr>listings := listings ?d @ [latecomer]\<rparr>)"
    using create_listing_success [OF pw, of ?d lamp] by (simp add: id latecomer_def)
  from create_listing_step [OF c]
  have "find_sorted (?d\<lparr>listings := listings ?d @ [latecomer]\<rparr>) None
      = find_sorted ?d None @ [latecomer]"
    by (simp add: latecomer_def)
  moreover have len: "length (find_sorted ?d None) = 200"
    by (simp add: find_sorted_def numbered_db_def)
  ultimately have "find_listings (?d\<lparr>listings := listings ?d @ [latecomer]\<rparr>) None
      = find_sorted ?d None"
    by (simp add: find_listings_def listings_query_def)
  moreover have "latecomer \<notin> set (find_sorted ?d None)"
  proof
    assume "latecomer \<in> set (find_sorted ?d None)"
    then have "latecomer \<in> set (listings ?d)" by (simp add: find_sorted_def)
    then have "id' latecomer \<in> id' ` set (listings ?d)" by (rule imageI)
    with fresh id(1) show False by simp
  qed
  ultimately show ?thesis using c by simp
qed

text \<open>
  The claim that the new \<open>sortOrder\<close> is one more than the greatest \<open>sortOrder\<close> of the
  listings fails on a store that holds a seeded listing only: the listing stores no
  \<open>sortOrder\<close> and is reported with 999, and the created listing gets 1. The claim that
  the listings created are returned fails on a store of 200 listings: the listing
  created there is stored, and is not among the listings returned.
\<close>

theorem create_after_seed_counterexample:
  "listings chair_db = [chair]
   \<and> sortOrder chair = None
   \<and> map_of (listing_to_dict env0 chair) ''sortOrder'' = Some (JInt 999)
   \<and> fst (create_listing env0 chair_db lamp ''changeme'')
       = Inr (JDict
           [(''id'', JStr ''65a0c0ffee0000000000000a''), (''title'', JStr ''Lamp''),
            (''price'', JFloat 10), (''status'', JStr ''In Stock''), (''image'', JStr []),
            (''excerpt'', JStr ''e''), (''fullText'', JStr ''f''), (''facebookUrl'', JStr []),
            (''category'', JStr ''household''), (''location'', JStr ''Colorado Springs, CO''),
            (''postedDate'', JStr ''2025-11-04T12:00:00''),
            (''createdAt'', JStr ''2025-11-04T12:00:00''), (''sortOrder'', JInt 1)])
   \<and> JInt 1 \<noteq> JInt (999 + 1) \<and> JInt 1 \<noteq> JInt 0
   \<and> create_listing (env_with_id 200) (numbered_db 200) lamp ''changeme''
       = (Inr (JDict (listing_to_dict (env_with_id 200) latecomer)),
          (numbered_db 200)\<lparr>listings := listings (numbered_db 200) @ [latecomer]\<rparr>)
   \<and> latecomer \<notin> set (find_listings
         (snd (create_listing (env_with_id 200) (numbered_db 200) lamp ''changeme'')) None)"
proof -
  have pw: "''changeme'' = ADMIN_PASSWORD env0"
    by (simp add: env0_def)
  have fresh: "inserted_id env0 \<notin> id' ` set (listings chair_db)"
    by (simp add: env0_def chair_db_def chair_def)
  have nxt: "next_sortOrder (listings chair_db) = 1"
    by (simp add: next_sortOrder_def find_one_sort_desc_def chair_db_def chair_sortOrder)
  have "fst (create_listing env0 chair_db lamp ''changeme'')
      = Inr (JDict (listing_to_dict env0 (new_doc env0 chair_db lamp)))"
    by (simp add: create_listing_success [OF pw fresh])
  also have "listing_to_dict env0 (new_doc env0 chair_db lamp) =
           [(''id'', JStr ''65a0c0ffee0000000000000a''), (''title'', JStr ''Lamp''),
            (''price'', JFloat 10), (''status'', JStr ''In Stock''), (''image'', JStr []),
            (''excerpt'', JStr ''e''), (''fullText'', JStr ''f''), (''facebookUrl'', JStr []),
            (''category'', JStr ''household''), (''location'', JStr ''Colorado Springs, CO''),
            (''postedDate'', JStr ''2025-11-04T12:00:00''),
            (''createdAt'', JStr ''2025-11-04T12:00:00''), (''sortOrder'', JInt 1)]"
    by (simp add: listing_to_dict_def new_doc_def nxt parse_postedDate_def lamp_def env0_def)
  finally have created: "fst (create_listing env0 chair_db lamp ''changeme'')
       = Inr (JDict
           [(''id'', JStr ''65a0c0ffee0000000000000a''), (''title'', JStr ''Lamp''),
            (''price'', JFloat 10), (''status'', JStr ''In Stock''), (''image'', JStr []),
            (''excerpt'', JStr ''e''), (''fullText'', JStr ''f''), (''facebookUrl'', JStr []),
            (''category'', JStr ''household''), (''location'', JStr ''Colorado Springs, CO''),
            (''postedDate'', JStr ''2025-11-04T12:00:00''),
            (''createdAt'', JStr ''2025-11-04T12:00:00''), (''sortOrder'', JInt 1)])" .
  have reported: "map_of (listing_to_dict env0 chair) ''sortOrder'' = Some (JInt 999)"
    by (simp add: listing_to_dict_def chair_sortOrder)
  have seeded: "listings chair_db = [chair] \<and> sortOrder chair = None"
    by (simp add: chair_db_def chair_sortOrder)
  have differ: "JInt 1 \<noteq> JInt (999 + 1) \<and> JInt 1 \<noteq> JInt 0"
    by simp
  from seeded reported created differ latecomer_not_listed show ?thesis
    by blast
qed

section \<open>Identifiers stay unique\<close>

text \<open>
  The theorems on deleting and reordering assume that no two listings of the collection
  have the same identifier. The empty database has the property, and every operation that
  changes the database keeps it.
\<close>

lemma update_listing_ids:
  "map id' (listings (snd (update_listing e d listing_id updates password)))
     = map id' (listings d)"
proof -
  have "map id' (fst (update_one (listings d) (ObjectId listing_id)
            (set_update_data updates (utcnow e)))) = map id' (listings d)"
    by (rule update_one_ids) (simp add: set_update_data_frame)
  then show ?thesis
    by (simp add: update_listing_def Let_def split: sum.splits option.splits)
qed

lemma unique_ids_invariant:
  assumes "distinct (map id' (listings d))"
  shows "distinct (map id' (listings (snd (create_listing e d listing password))))"
    and "distinct (map id' (listings (snd (update_listing e d listing_id updates password))))"
    and "distinct (map id' (listings (snd (delete_listing e d listing_id password))))"
    and "distinct (map id' (listings (snd (reorder_listings e d request password))))"
    and "distinct (map id' (listings (snd (update_settings e d request password))))"
    and "distinct (map id' (listings empty_db))"
proof -
  show "distinct (map id' (listings (snd (create_listing e d listing password))))"
    using assms
    by (auto simp: create_listing_def insert_one_def new_doc_id
        split: sum.splits option.splits if_splits)
  show "distinct (map id' (listings (snd (update_listing e d listing_id updates password))))"
    using assms by (simp only: update_listing_ids)
  show "distinct (map id' (listings (snd (delete_listing e d listing_id password))))"
    using assms delete_one_distinct [OF assms, of "ObjectId listing_id"]
    by (simp add: delete_listing_def Let_def split: sum.splits)
  show "distinct (map id' (listings (snd (reorder_listings e d request password))))"
    using assms
    by (simp add: reorder_listings_def reorder_loop_ids
        split: sum.splits option.splits json.splits)
  show "distinct (map id' (listings (snd (update_settings e d request password))))"
    using assms
    by (simp add: update_settings_def split: sum.splits option.splits json.splits)
  show "distinct (map id' (listings empty_db))"
    by (simp add: empty_db_def)
qed

end
